theory Spec2Isabelle
  imports Main "HOL-Library.Word" "HOL-Library.Multiset"
begin

unbundle bit_operations_syntax

section \<open>Data model of mapinfo.c\<close>

text \<open>
  The structs of mapinfo.c, one record each. A field holds the bits of the C object:
  \<open>short\<close> and \<open>unsigned short\<close> are 16-bit words, \<open>int\<close> is a 32-bit word,
  \<open>signed char\<close> and \<open>unsigned char\<close> are 8-bit words. Whether the bits are read as a
  signed or an unsigned number is the declared type of the field, and is written at each
  use of the field (\<open>sint\<close> for the signed types, \<open>uint\<close> for the unsigned ones).
  Field names carry the struct's name as a prefix, since several structs of the source
  share names such as \<open>lotag\<close>, \<open>pic\<close>, \<open>x\<close>.
\<close>

type_synonym byte = "8 word"

record vec2_i32_t =
  vec2_i32_x :: "32 word"
  vec2_i32_y :: "32 word"

record vec2_i8_t =
  vec2_i8_x :: "8 word"
  vec2_i8_y :: "8 word"

record vec2_u8_t =
  vec2_u8_x :: "8 word"
  vec2_u8_y :: "8 word"

record vec3_i16_t =
  vec3_i16_x :: "16 word"
  vec3_i16_y :: "16 word"
  vec3_i16_z :: "16 word"

record vec3_i32_t =
  vec3_i32_x :: "32 word"
  vec3_i32_y :: "32 word"
  vec3_i32_z :: "32 word"

record player_t =
  player_position :: vec3_i32_t
  player_angle :: "16 word"

record ceilling_floor_t =
  cf_shade :: "8 word"
  cf_height :: "32 word"
  cf_pic :: "16 word"
  cf_slope :: "16 word"
  cf_stat :: "16 word"
  cf_palette :: "8 word"
  cf_panning :: vec2_u8_t

record sector_t =
  sector_wall_ptr :: "16 word"
  sector_wall_count :: "16 word"
  sector_ceilling :: ceilling_floor_t
  sector_floor :: ceilling_floor_t
  sector_visibility :: "8 word"
  sector_filler :: "8 word"
  sector_lotag :: "16 word"
  sector_hitag :: "16 word"
  sector_extra :: "16 word"

record wall_t =
  wall_position :: vec2_i32_t
  wall_wall_next_right :: "16 word"
  wall_wall_next_left :: "16 word"
  wall_sector_next :: "16 word"
  wall_stat :: "16 word"
  wall_pic :: "16 word"
  wall_pic_over :: "16 word"
  wall_shade :: "8 word"
  wall_pal :: "8 word"
  wall_repeat :: vec2_u8_t
  wall_panning :: vec2_u8_t
  wall_lotag :: "16 word"
  wall_hitag :: "16 word"
  wall_extra :: "16 word"

record sprite_t =
  sprite_position :: vec3_i32_t
  sprite_stat :: "16 word"
  sprite_pic :: "16 word"
  sprite_shade :: "8 word"
  sprite_pal :: "8 word"
  sprite_clipping_distance :: "8 word"
  sprite_filler :: "8 word"
  sprite_repeat :: vec2_u8_t
  sprite_offset :: vec2_i8_t
  sprite_sector :: "16 word"
  sprite_status :: "16 word"
  sprite_angle :: "16 word"
  sprite_owner :: "16 word"
  sprite_vel :: vec3_i16_t
  sprite_lotag :: "16 word"
  sprite_hitag :: "16 word"
  sprite_extra :: "16 word"

text \<open>
  \<open>map_t\<close>: the three arrays are pointers in the source. \<open>None\<close> is the null pointer,
  \<open>Some xs\<close> a block of \<open>length xs\<close> elements.
\<close>

record map_t =
  version :: "32 word"
  player :: player_t
  sector_start :: "16 word"
  sector_count :: "16 word"
  sector :: "sector_t list option"
  wall_count :: "16 word"
  wall :: "wall_t list option"
  sprite_count :: "16 word"
  sprite :: "sprite_t list option"

text \<open>
  The value of the three tag fields of a sprite, as the declaration of \<open>sprite_s\<close> in the
  file with the classification functions types them: \<open>unsigned short lotag\<close>,
  \<open>unsigned short hitag\<close>, \<open>short extra\<close>.
\<close>

definition sprite_lotag_value :: "sprite_t \<Rightarrow> int" where
  "sprite_lotag_value s = uint (sprite_lotag s)"

definition sprite_hitag_value :: "sprite_t \<Rightarrow> int" where
  "sprite_hitag_value s = uint (sprite_hitag s)"

definition sprite_extra_value :: "sprite_t \<Rightarrow> int" where
  "sprite_extra_value s = sint (sprite_extra s)"

text \<open>
  The other file of the same name, whose \<open>map_print\<close> writes one summary line, declares
  \<open>short lotag\<close>, \<open>short hitag\<close>, \<open>short extra\<close>. Its structs are otherwise the
  same, and so is the text of its reading functions.
\<close>

definition summary_sprite_lotag_value :: "sprite_t \<Rightarrow> int" where
  "summary_sprite_lotag_value s = sint (sprite_lotag s)"

definition summary_sprite_hitag_value :: "sprite_t \<Rightarrow> int" where
  "summary_sprite_hitag_value s = sint (sprite_hitag s)"

definition summary_sprite_extra_value :: "sprite_t \<Rightarrow> int" where
  "summary_sprite_extra_value s = sint (sprite_extra s)"

section \<open>Memory accesses and output\<close>

text \<open>
  An array element is read through a pointer: reading through the null pointer, or past
  the end of the block, is undefined behaviour in C. The model makes it a value.
\<close>

datatype fault = Null_dereference | Out_of_bounds

definition array_at :: "'a list option \<Rightarrow> nat \<Rightarrow> fault + 'a" where
  "array_at p i =
     (case p of
        None \<Rightarrow> Inl Null_dereference
      | Some xs \<Rightarrow> if i < length xs then Inr (xs ! i) else Inl Out_of_bounds)"

text \<open>
  What the program writes: one event for each \<open>printf\<close>, \<open>fprintf\<close> or \<open>perror\<close> call,
  carrying the values of the call's arguments. The fixed text of the format strings is
  not part of the model.
\<close>

datatype event =
    Stdout_sector sector_t
  | Stdout_filename string
  | Stdout_version int
  | Stdout_single_player string
  | Stdout_cooperative string
  | Stdout_dukematch string
  | Stdout_atomic
  | Stdout_new_art
  | Stdout_vanilla string int int int
  | Stderr_perror string
  | Stderr_usage string string

text \<open>\<open>%d\<close> of \<open>printf\<close> and \<open>snprintf\<close>: the decimal digits of an \<open>int\<close>.\<close>

definition digit_char :: "nat \<Rightarrow> char" where
  "digit_char d = ''0123456789'' ! d"

function dec_nat :: "nat \<Rightarrow> string" where
  "dec_nat n = (if n < 10 then [digit_char n] else dec_nat (n div 10) @ [digit_char (n mod 10)])"
  by pat_completeness auto
termination
  by (relation "measure (\<lambda>n. n)") auto

declare dec_nat.simps [simp del]

definition printf_d :: "int \<Rightarrow> string" where
  "printf_d i = (if i < 0 then CHR ''-'' # dec_nat (nat (- i)) else dec_nat (nat i))"

text \<open>
  \<open>snprintf (buffer, size, ...)\<close> stores at most \<open>size - 1\<close> characters of the
  formatted text.
\<close>

definition snprintf :: "nat \<Rightarrow> string \<Rightarrow> string" where
  "snprintf size_arg text_arg = take (size_arg - 1) text_arg"

section \<open>Reading the file\<close>

subsection \<open>Processes, files and allocation\<close>

text \<open>
  A function of the program returns, or ends the process through \<open>exit\<close>, or runs
  into undefined behaviour. What it wrote until then comes first.
\<close>

datatype 'a outcome = Returns 'a | Exits int | Undefined fault

definition and_then ::
  "event list \<times> 'a outcome \<Rightarrow> ('a \<Rightarrow> event list \<times> 'b outcome) \<Rightarrow> event list \<times> 'b outcome" where
  "and_then p k =
     (case p of
        (out, Returns a) \<Rightarrow> (case k a of (out', r) \<Rightarrow> (out @ out', r))
      | (out, Exits c) \<Rightarrow> (out, Exits c)
      | (out, Undefined e) \<Rightarrow> (out, Undefined e))"

definition of_fault :: "fault + 'a \<Rightarrow> 'a outcome" where
  "of_fault r = (case r of Inl e \<Rightarrow> Undefined e | Inr a \<Rightarrow> Returns a)"

text \<open>The \<open>enum\<close> of exit codes starts at \<open>error_fclose = 2\<close>.\<close>

definition error_fclose :: int where "error_fclose = 2"
definition error_fopen :: int where "error_fopen = 3"
definition EXIT_SUCCESS :: int where "EXIT_SUCCESS = 0"
definition EXIT_FAILURE :: int where "EXIT_FAILURE = 1"
definition MAPINFO_VERSION :: string where "MAPINFO_VERSION = ''1.0''"

text \<open>
  An open stream: the bytes not read yet, and whether \<open>fclose\<close> will succeed. The file
  system gives the stream that \<open>fopen\<close> returns for a path, \<open>None\<close> when it returns
  the null pointer. A read error is a stream that ends there.
\<close>

record FILE =
  file_unread :: "byte list"
  file_close_ok :: bool

type_synonym file_system = "string \<Rightarrow> FILE option"

text \<open>
  \<open>safe_fopen\<close>. The test \<open>!path || !mode\<close> cannot succeed: the path is an element
  of \<open>argv\<close> and the mode a literal.
\<close>

definition safe_fopen :: "file_system \<Rightarrow> string \<Rightarrow> event list \<times> FILE outcome" where
  "safe_fopen fs path =
     (case fs path of
        None \<Rightarrow> ([Stderr_perror ''fopen''], Exits error_fopen)
      | Some fp \<Rightarrow> ([], Returns fp))"

definition safe_fclose :: "FILE \<Rightarrow> event list \<times> unit outcome" where
  "safe_fclose fp =
     (if file_close_ok fp then ([], Returns ())
      else ([Stderr_perror ''fclose''], Exits error_fclose))"

text \<open>
  \<open>malloc\<close> of \<open>n\<close> elements: the null pointer, or a block of \<open>n\<close> elements whose
  contents are indeterminate. The first argument says which: \<open>None\<close> when the
  allocation fails, otherwise what the memory holds at each element.
\<close>

definition malloc :: "(nat \<Rightarrow> 'a) option \<Rightarrow> nat \<Rightarrow> 'a list option" where
  "malloc mem n = (case mem of None \<Rightarrow> None | Some junk \<Rightarrow> Some (map junk [0..<n]))"

record allocator =
  sector_memory :: "(nat \<Rightarrow> sector_t) option"
  wall_memory :: "(nat \<Rightarrow> wall_t) option"
  sprite_memory :: "(nat \<Rightarrow> sprite_t) option"

subsection \<open>fread\<close>

text \<open>
  The bytes of an integer object of \<open>n\<close> bytes on a little-endian machine, and the
  integer that a list of bytes stands for.
\<close>

fun le_bytes :: "nat \<Rightarrow> 'a::len word \<Rightarrow> byte list" where
  "le_bytes 0 w = []"
| "le_bytes (Suc n) w = ucast w # le_bytes n (drop_bit 8 w)"

fun of_le_bytes :: "byte list \<Rightarrow> 'a::len word" where
  "of_le_bytes [] = 0"
| "of_le_bytes (b # bs) = ucast b OR push_bit 8 (of_le_bytes bs)"

text \<open>
  \<open>fread (ptr, 1, n, fp)\<close> with the return value discarded, as at every call of the
  source: the bytes that the stream still has, at most \<open>n\<close>, replace the first bytes of
  the object at \<open>ptr\<close>; the bytes of the object that the stream does not reach stay as
  they were. \<open>obj\<close> is the object's \<open>n\<close> bytes before the call.
\<close>

definition fread :: "byte list \<Rightarrow> byte list \<Rightarrow> byte list \<times> byte list" where
  "fread obj s = (take (length obj) s @ drop (length s) obj, drop (length obj) s)"

definition fread_word :: "'a::len word \<Rightarrow> byte list \<Rightarrow> 'a word \<times> byte list" where
  "fread_word w s =
     (case fread (le_bytes (LENGTH('a) div 8) w) s of (obj, s') \<Rightarrow> (of_le_bytes obj, s'))"

text \<open>
  \<open>fread (&r->field, 1, sizeof (r->field), fp)\<close>: the field is given by its selector
  and its update function; the state is the struct and the unread bytes.
\<close>

definition fread_field ::
  "('r \<Rightarrow> 'a::len word) \<Rightarrow> (('a word \<Rightarrow> 'a word) \<Rightarrow> 'r \<Rightarrow> 'r) \<Rightarrow> 'r \<times> byte list \<Rightarrow> 'r \<times> byte list" where
  "fread_field get upd st =
     (case st of (r, s) \<Rightarrow>
        (case fread_word (get r) s of (v, s') \<Rightarrow> (upd (\<lambda>_. v) r, s')))"

text \<open>Statements one after the other.\<close>

definition in_order :: "('s \<Rightarrow> 's) list \<Rightarrow> 's \<Rightarrow> 's" where
  "in_order steps st = fold (\<lambda>step. step) steps st"

subsection \<open>sector_read, wall_read, sprite_read\<close>

definition sector_read :: "sector_t \<times> byte list \<Rightarrow> sector_t \<times> byte list" where
  "sector_read =
     in_order
      [fread_field sector_wall_ptr sector_wall_ptr_update,
       fread_field sector_wall_count sector_wall_count_update,
       fread_field (cf_height \<circ> sector_ceilling) (sector_ceilling_update \<circ> cf_height_update),
       fread_field (cf_height \<circ> sector_floor) (sector_floor_update \<circ> cf_height_update),
       fread_field (cf_stat \<circ> sector_ceilling) (sector_ceilling_update \<circ> cf_stat_update),
       fread_field (cf_stat \<circ> sector_floor) (sector_floor_update \<circ> cf_stat_update),
       fread_field (cf_pic \<circ> sector_ceilling) (sector_ceilling_update \<circ> cf_pic_update),
       fread_field (cf_slope \<circ> sector_ceilling) (sector_ceilling_update \<circ> cf_slope_update),
       fread_field (cf_shade \<circ> sector_ceilling) (sector_ceilling_update \<circ> cf_shade_update),
       fread_field (cf_palette \<circ> sector_ceilling) (sector_ceilling_update \<circ> cf_palette_update),
       fread_field (vec2_u8_x \<circ> cf_panning \<circ> sector_ceilling)
         (sector_ceilling_update \<circ> cf_panning_update \<circ> vec2_u8_x_update),
       fread_field (vec2_u8_y \<circ> cf_panning \<circ> sector_ceilling)
         (sector_ceilling_update \<circ> cf_panning_update \<circ> vec2_u8_y_update),
       fread_field (cf_pic \<circ> sector_floor) (sector_floor_update \<circ> cf_pic_update),
       fread_field (cf_slope \<circ> sector_floor) (sector_floor_update \<circ> cf_slope_update),
       fread_field (cf_shade \<circ> sector_floor) (sector_floor_update \<circ> cf_shade_update),
       fread_field (cf_palette \<circ> sector_floor) (sector_floor_update \<circ> cf_palette_update),
       fread_field (vec2_u8_x \<circ> cf_panning \<circ> sector_floor)
         (sector_floor_update \<circ> cf_panning_update \<circ> vec2_u8_x_update),
       fread_field (vec2_u8_y \<circ> cf_panning \<circ> sector_floor)
         (sector_floor_update \<circ> cf_panning_update \<circ> vec2_u8_y_update),
       fread_field sector_visibility sector_visibility_update,
       fread_field sector_filler sector_filler_update,
       fread_field sector_lotag sector_lotag_update,
       fread_field sector_hitag sector_hitag_update,
       fread_field sector_extra sector_extra_update]"

definition wall_read :: "wall_t \<times> byte list \<Rightarrow> wall_t \<times> byte list" where
  "wall_read =
     in_order
      [fread_field (vec2_i32_x \<circ> wall_position) (wall_position_update \<circ> vec2_i32_x_update),
       fread_field (vec2_i32_y \<circ> wall_position) (wall_position_update \<circ> vec2_i32_y_update),
       fread_field wall_wall_next_right wall_wall_next_right_update,
       fread_field wall_wall_next_left wall_wall_next_left_update,
       fread_field wall_sector_next wall_sector_next_update,
       fread_field wall_stat wall_stat_update,
       fread_field wall_pic wall_pic_update,
       fread_field wall_pic_over wall_pic_over_update,
       fread_field wall_shade wall_shade_update,
       fread_field wall_pal wall_pal_update,
       fread_field (vec2_u8_x \<circ> wall_repeat) (wall_repeat_update \<circ> vec2_u8_x_update),
       fread_field (vec2_u8_y \<circ> wall_repeat) (wall_repeat_update \<circ> vec2_u8_y_update),
       fread_field (vec2_u8_x \<circ> wall_panning) (wall_panning_update \<circ> vec2_u8_x_update),
       fread_field (vec2_u8_y \<circ> wall_panning) (wall_panning_update \<circ> vec2_u8_y_update),
       fread_field wall_lotag wall_lotag_update,
       fread_field wall_hitag wall_hitag_update,
       fread_field wall_extra wall_extra_update]"

definition sprite_read :: "sprite_t \<times> byte list \<Rightarrow> sprite_t \<times> byte list" where
  "sprite_read =
     in_order
      [fread_field (vec3_i32_x \<circ> sprite_position) (sprite_position_update \<circ> vec3_i32_x_update),
       fread_field (vec3_i32_y \<circ> sprite_position) (sprite_position_update \<circ> vec3_i32_y_update),
       fread_field (vec3_i32_z \<circ> sprite_position) (sprite_position_update \<circ> vec3_i32_z_update),
       fread_field sprite_stat sprite_stat_update,
       fread_field sprite_pic sprite_pic_update,
       fread_field sprite_shade sprite_shade_update,
       fread_field sprite_pal sprite_pal_update,
       fread_field sprite_clipping_distance sprite_clipping_distance_update,
       fread_field sprite_filler sprite_filler_update,
       fread_field (vec2_u8_x \<circ> sprite_repeat) (sprite_repeat_update \<circ> vec2_u8_x_update),
       fread_field (vec2_u8_y \<circ> sprite_repeat) (sprite_repeat_update \<circ> vec2_u8_y_update),
       fread_field (vec2_i8_x \<circ> sprite_offset) (sprite_offset_update \<circ> vec2_i8_x_update),
       fread_field (vec2_i8_y \<circ> sprite_offset) (sprite_offset_update \<circ> vec2_i8_y_update),
       fread_field sprite_sector sprite_sector_update,
       fread_field sprite_status sprite_status_update,
       fread_field sprite_angle sprite_angle_update,
       fread_field sprite_owner sprite_owner_update,
       fread_field (vec3_i16_x \<circ> sprite_vel) (sprite_vel_update \<circ> vec3_i16_x_update),
       fread_field (vec3_i16_y \<circ> sprite_vel) (sprite_vel_update \<circ> vec3_i16_y_update),
       fread_field (vec3_i16_z \<circ> sprite_vel) (sprite_vel_update \<circ> vec3_i16_z_update),
       fread_field sprite_lotag sprite_lotag_update,
       fread_field sprite_hitag sprite_hitag_update,
       fread_field sprite_extra sprite_extra_update]"

subsection \<open>map_read\<close>

text \<open>
  The three \<open>for\<close> loops of \<open>map_read\<close>: the record reader is called on the elements
  \<open>i\<close>, \<open>i + 1\<close>, ... of the block, up to the count \<open>n\<close>. The loop runs on a block
  that \<open>malloc\<close> returned for \<open>n\<close> elements, so \<open>i < n\<close> is within the block.
\<close>

function read_records ::
  "('a \<times> byte list \<Rightarrow> 'a \<times> byte list) \<Rightarrow> nat \<Rightarrow> nat \<Rightarrow> 'a list \<Rightarrow> byte list \<Rightarrow> 'a list \<times> byte list" where
  "read_records rd n i xs s =
     (if i < n then
        (case rd (xs ! i, s) of (x, s') \<Rightarrow> read_records rd n (i + 1) (xs[i := x]) s')
      else (xs, s))"
  by pat_completeness auto
termination
  by (relation "measure (\<lambda>(rd, n, i, xs, s). n - i)") auto

declare read_records.simps [simp del]

text \<open>The reads before the first array: version, player, \<open>sector_start\<close>.\<close>

definition map_read_header :: "map_t \<times> byte list \<Rightarrow> map_t \<times> byte list" where
  "map_read_header =
     in_order
      [fread_field version version_update,
       fread_field (vec3_i32_x \<circ> player_position \<circ> player)
         (player_update \<circ> player_position_update \<circ> vec3_i32_x_update),
       fread_field (vec3_i32_y \<circ> player_position \<circ> player)
         (player_update \<circ> player_position_update \<circ> vec3_i32_y_update),
       fread_field (vec3_i32_z \<circ> player_position \<circ> player)
         (player_update \<circ> player_position_update \<circ> vec3_i32_z_update),
       fread_field (player_angle \<circ> player) (player_update \<circ> player_angle_update),
       fread_field sector_start sector_start_update]"

text \<open>
  Each array: read the count, allocate, and fill the block if the pointer is not null.
\<close>

definition map_read_sectors :: "allocator \<Rightarrow> map_t \<times> byte list \<Rightarrow> map_t \<times> byte list" where
  "map_read_sectors mem st =
     (case fread_field sector_count sector_count_update st of (m, s) \<Rightarrow>
        (case malloc (sector_memory mem) (unat (sector_count m)) of
           None \<Rightarrow> (m\<lparr>sector := None\<rparr>, s)
         | Some block \<Rightarrow>
             (case read_records sector_read (unat (sector_count m)) 0 block s of
                (xs, s') \<Rightarrow> (m\<lparr>sector := Some xs\<rparr>, s'))))"

definition map_read_walls :: "allocator \<Rightarrow> map_t \<times> byte list \<Rightarrow> map_t \<times> byte list" where
  "map_read_walls mem st =
     (case fread_field wall_count wall_count_update st of (m, s) \<Rightarrow>
        (case malloc (wall_memory mem) (unat (wall_count m)) of
           None \<Rightarrow> (m\<lparr>wall := None\<rparr>, s)
         | Some block \<Rightarrow>
             (case read_records wall_read (unat (wall_count m)) 0 block s of
                (xs, s') \<Rightarrow> (m\<lparr>wall := Some xs\<rparr>, s'))))"

definition map_read_sprites :: "allocator \<Rightarrow> map_t \<times> byte list \<Rightarrow> map_t \<times> byte list" where
  "map_read_sprites mem st =
     (case fread_field sprite_count sprite_count_update st of (m, s) \<Rightarrow>
        (case malloc (sprite_memory mem) (unat (sprite_count m)) of
           None \<Rightarrow> (m\<lparr>sprite := None\<rparr>, s)
         | Some block \<Rightarrow>
             (case read_records sprite_read (unat (sprite_count m)) 0 block s of
                (xs, s') \<Rightarrow> (m\<lparr>sprite := Some xs\<rparr>, s'))))"

text \<open>
  \<open>map_read\<close>: the map that the caller passes is filled in place; the result is the map
  afterwards.
\<close>

definition map_read ::
  "allocator \<Rightarrow> file_system \<Rightarrow> map_t \<Rightarrow> string \<Rightarrow> event list \<times> map_t outcome" where
  "map_read mem fs m path =
     and_then (safe_fopen fs path) (\<lambda>fp.
       (case in_order [map_read_header, map_read_sectors mem, map_read_walls mem,
                       map_read_sprites mem] (m, file_unread fp) of
          (m', s) \<Rightarrow> and_then (safe_fclose fp) (\<lambda>_. ([], Returns m'))))"

section \<open>Gameplay classification\<close>

subsection \<open>is_single_player\<close>

text \<open>The four string literals that \<open>is_single_player\<close> returns on a match.\<close>

definition yes_unknown :: string where
  "yes_unknown = ''Yes (??)''"

definition yes_fry :: string where
  "yes_fry = ''Yes ('' @ [CHR 0x22] @ ''We'' @ [CHR 0x27]
               @ ''re gonna fry your ass, Nukem!'' @ [CHR 0x22] @ '')''"

definition yes_nuke_button :: string where
  "yes_nuke_button = ''Yes (Normal nuke button)''"

definition yes_secret_exit :: string where
  "yes_secret_exit = ''Yes (Secret level exit)''"

text \<open>
  The body of the first loop for one sprite: \<open>Some\<close> text when the body returns it,
  \<open>None\<close> when the loop goes on. \<open>pic\<close> is a \<open>short\<close> and \<open>pal\<close> an
  \<open>unsigned char\<close>; each is promoted to \<open>int\<close>.
\<close>

definition single_player_check :: "sprite_t \<Rightarrow> string option" where
  "single_player_check s =
     (if sint (sprite_pic s) = 142 then
        if sprite_lotag_value s = 32767 then Some yes_unknown
        else if sprite_lotag_value s = 65534 then Some yes_fry
        else if sprite_lotag_value s = 65535 then Some yes_nuke_button
        else if uint (sprite_pal s) = 14 then Some yes_secret_exit
        else None
      else None)"

text \<open>The first loop, from index \<open>i\<close> on.\<close>

function is_single_player_scan :: "map_t \<Rightarrow> nat \<Rightarrow> fault + string option" where
  "is_single_player_scan m i =
     (if i < unat (sprite_count m) then
        (case array_at (sprite m) i of
           Inl e \<Rightarrow> Inl e
         | Inr s \<Rightarrow>
             (case single_player_check s of
                Some r \<Rightarrow> Inr (Some r)
              | None \<Rightarrow> is_single_player_scan m (i + 1)))
      else Inr None)"
  by pat_completeness auto
termination
  by (relation "measure (\<lambda>(m, i). unat (sprite_count m) - i)") auto

declare is_single_player_scan.simps [simp del]

text \<open>
  The second loop, from index \<open>i\<close> on: \<open>sector_print\<close> of every sector. The result is
  what was printed, and the fault that stopped the loop, if any.
\<close>

function is_single_player_dump :: "map_t \<Rightarrow> nat \<Rightarrow> event list \<times> fault option" where
  "is_single_player_dump m i =
     (if i < unat (sector_count m) then
        (case array_at (sector m) i of
           Inl e \<Rightarrow> ([], Some e)
         | Inr s \<Rightarrow>
             (case is_single_player_dump m (i + 1) of
                (out, r) \<Rightarrow> (Stdout_sector s # out, r)))
      else ([], None))"
  by pat_completeness auto
termination
  by (relation "measure (\<lambda>(m, i). unat (sector_count m) - i)") auto

declare is_single_player_dump.simps [simp del]

definition is_single_player :: "map_t \<Rightarrow> event list \<times> (fault + string)" where
  "is_single_player m =
     (case is_single_player_scan m 0 of
        Inl e \<Rightarrow> ([], Inl e)
      | Inr (Some r) \<Rightarrow> ([], Inr r)
      | Inr None \<Rightarrow>
          (case is_single_player_dump m 0 of
             (out, Some e) \<Rightarrow> (out, Inl e)
           | (out, None) \<Rightarrow> (out, Inr ''No'')))"

subsection \<open>is_dukematch and is_coop\<close>

text \<open>
  The counting loops, from index \<open>i\<close> on with the counter at \<open>result\<close>. The counter
  is an \<open>int\<close>: a 32-bit word, read as signed.
\<close>

function is_dukematch_count :: "map_t \<Rightarrow> nat \<Rightarrow> 32 word \<Rightarrow> fault + 32 word" where
  "is_dukematch_count m i result =
     (if i < unat (sprite_count m) then
        (case array_at (sprite m) i of
           Inl e \<Rightarrow> Inl e
         | Inr s \<Rightarrow>
             is_dukematch_count m (i + 1)
               (if sint (sprite_pic s) = 1405 \<and> sprite_lotag_value s = 0
                then result + 1 else result))
      else Inr result)"
  by pat_completeness auto
termination
  by (relation "measure (\<lambda>(m, i, result). unat (sprite_count m) - i)") auto

declare is_dukematch_count.simps [simp del]

function is_coop_count :: "map_t \<Rightarrow> nat \<Rightarrow> 32 word \<Rightarrow> fault + 32 word" where
  "is_coop_count m i result =
     (if i < unat (sprite_count m) then
        (case array_at (sprite m) i of
           Inl e \<Rightarrow> Inl e
         | Inr s \<Rightarrow>
             is_coop_count m (i + 1)
               (if sint (sprite_pic s) = 1405 \<and> sprite_lotag_value s = 1
                then result + 1 else result))
      else Inr result)"
  by pat_completeness auto
termination
  by (relation "measure (\<lambda>(m, i, result). unat (sprite_count m) - i)") auto

declare is_coop_count.simps [simp del]

text \<open>
  Both functions take the caller's buffer and return a pointer: to the buffer, after
  \<open>snprintf\<close> wrote into it, or to the literal "No". The result is the text behind the
  returned pointer, paired with the buffer's contents afterwards.
\<close>

definition yes_players :: "32 word \<Rightarrow> string" where
  "yes_players result =
     snprintf 256 (''Yes ('' @ printf_d (sint (result + 1)) @ '' players)'')"

definition is_dukematch :: "map_t \<Rightarrow> string \<Rightarrow> fault + string \<times> string" where
  "is_dukematch m buffer =
     (case is_dukematch_count m 0 0 of
        Inl e \<Rightarrow> Inl e
      | Inr result \<Rightarrow>
          if result \<noteq> 0 then Inr (yes_players result, yes_players result)
          else Inr (''No'', buffer))"

definition is_coop :: "map_t \<Rightarrow> string \<Rightarrow> fault + string \<times> string" where
  "is_coop m buffer =
     (case is_coop_count m 0 0 of
        Inl e \<Rightarrow> Inl e
      | Inr result \<Rightarrow>
          if result \<noteq> 0 then Inr (yes_players result, yes_players result)
          else Inr (''No'', buffer))"

subsection \<open>is_vanilla_compatible\<close>

text \<open>
  The three counts are \<open>unsigned short\<close>, promoted to \<open>int\<close> for the comparison.
\<close>

definition is_vanilla_compatible :: "map_t \<Rightarrow> string" where
  "is_vanilla_compatible m =
     (if uint (sector_count m) \<le> 1024 \<and> uint (wall_count m) \<le> 8192
         \<and> uint (sprite_count m) \<le> 4096
      then ''Yes'' else ''No'')"

section \<open>The report and the main loop\<close>

text \<open>
  \<open>map_print\<close>. The buffer starts as the empty string. Each \<open>printf\<close> evaluates its
  arguments first, so what \<open>is_single_player\<close> writes comes before the line that shows
  its result.
\<close>

definition map_print :: "map_t \<Rightarrow> string \<Rightarrow> event list \<times> unit outcome" where
  "map_print m path =
     and_then ([Stdout_filename path, Stdout_version (sint (version m))], Returns []) (\<lambda>buffer.
     and_then (case is_single_player m of (out, r) \<Rightarrow> (out, of_fault r)) (\<lambda>single.
     and_then ([Stdout_single_player single], of_fault (is_coop m buffer)) (\<lambda>(coop, buffer).
     and_then ([Stdout_cooperative coop], of_fault (is_dukematch m buffer)) (\<lambda>(dukematch, buffer).
       ([Stdout_dukematch dukematch, Stdout_atomic, Stdout_new_art,
         Stdout_vanilla (is_vanilla_compatible m)
           (uint (sector_count m)) (uint (wall_count m)) (uint (sprite_count m))],
        Returns ())))))"

definition usage :: "string \<Rightarrow> string \<Rightarrow> event list \<times> 'a outcome" where
  "usage prgname prgver = ([Stderr_usage prgname prgver], Exits EXIT_FAILURE)"

text \<open>\<open>map_t map = {0}\<close>: every field zero, every pointer null.\<close>

definition zero_map :: map_t where
  "zero_map =
     \<lparr>version = 0,
      player = \<lparr>player_position = \<lparr>vec3_i32_x = 0, vec3_i32_y = 0, vec3_i32_z = 0\<rparr>,
                player_angle = 0\<rparr>,
      sector_start = 0,
      sector_count = 0, sector = None,
      wall_count = 0, wall = None,
      sprite_count = 0, sprite = None\<rparr>"

text \<open>
  The body of the loop of \<open>main\<close> for one path: \<open>map_read\<close> into a zeroed map,
  then \<open>map_print\<close>. \<open>map_free\<close> releases the blocks of a map that nothing uses
  afterwards; it has no part in the model.
\<close>

definition main_file :: "allocator \<Rightarrow> file_system \<Rightarrow> string \<Rightarrow> event list \<times> unit outcome" where
  "main_file mem fs path =
     and_then (map_read mem fs zero_map path) (\<lambda>m. map_print m path)"

text \<open>
  The loop of \<open>main\<close> from argument \<open>i\<close> on. The allocations of the \<open>i\<close>-th
  iteration are \<open>mem i\<close>.
\<close>

function main_files ::
  "(nat \<Rightarrow> allocator) \<Rightarrow> file_system \<Rightarrow> string list \<Rightarrow> nat \<Rightarrow> event list \<times> int outcome" where
  "main_files mem fs argv i =
     (if i < length argv then
        and_then (main_file (mem i) fs (argv ! i)) (\<lambda>_. main_files mem fs argv (i + 1))
      else ([], Returns EXIT_SUCCESS))"
  by pat_completeness auto
termination
  by (relation "measure (\<lambda>(mem, fs, argv, i). length argv - i)") auto

declare main_files.simps [simp del]

text \<open>\<open>main\<close>; \<open>argv\<close> starts with the program's name.\<close>

definition main :: "(nat \<Rightarrow> allocator) \<Rightarrow> file_system \<Rightarrow> string list \<Rightarrow> event list \<times> int outcome" where
  "main mem fs argv =
     (if length argv < 2 then usage (argv ! 0) MAPINFO_VERSION
      else main_files mem fs argv 1)"

section \<open>Decoded maps\<close>

text \<open>
  A pointer of the map is consistent with its count when it points to a block of exactly
  that many elements, or is null with a count of zero. \<open>map_read\<close> leaves the map so
  whenever its allocations succeed.
\<close>

definition array_ok :: "'a list option \<Rightarrow> nat \<Rightarrow> bool" where
  "array_ok p n = (case p of None \<Rightarrow> n = 0 | Some xs \<Rightarrow> length xs = n)"

definition the_array :: "'a list option \<Rightarrow> 'a list" where
  "the_array p = (case p of None \<Rightarrow> [] | Some xs \<Rightarrow> xs)"

definition decoded :: "map_t \<Rightarrow> bool" where
  "decoded m =
     (array_ok (sector m) (unat (sector_count m))
      \<and> array_ok (wall m) (unat (wall_count m))
      \<and> array_ok (sprite m) (unat (sprite_count m)))"

text \<open>
  The text that the first loop of \<open>is_single_player\<close> returns on a list of sprites:
  that of the first sprite for which the body of the loop returns.
\<close>

definition first_message :: "sprite_t list \<Rightarrow> string option" where
  "first_message sps =
     (case find (\<lambda>s. single_player_check s \<noteq> None) sps of
        None \<Rightarrow> None | Some s \<Rightarrow> single_player_check s)"


text \<open>
  The map with other values in its index fields: the start sector of the player, the
  first wall and the number of walls of each sector, the three links of each wall, the
  sector and the owner of each sprite. The new values may depend on the record.
\<close>

definition with_index_fields ::
  "16 word \<Rightarrow> (sector_t \<Rightarrow> 16 word) \<Rightarrow> (sector_t \<Rightarrow> 16 word)
   \<Rightarrow> (wall_t \<Rightarrow> 16 word) \<Rightarrow> (wall_t \<Rightarrow> 16 word) \<Rightarrow> (wall_t \<Rightarrow> 16 word)
   \<Rightarrow> (sprite_t \<Rightarrow> 16 word) \<Rightarrow> (sprite_t \<Rightarrow> 16 word) \<Rightarrow> map_t \<Rightarrow> map_t" where
  "with_index_fields start p c r l n a b m =
     m\<lparr>sector_start := start,
       sector := map_option
         (map (\<lambda>s. s\<lparr>sector_wall_ptr := p s, sector_wall_count := c s\<rparr>)) (sector m),
       wall := map_option
         (map (\<lambda>w. w\<lparr>wall_wall_next_right := r w, wall_wall_next_left := l w,
                      wall_sector_next := n w\<rparr>)) (wall m),
       sprite := map_option
         (map (\<lambda>s. s\<lparr>sprite_sector := a s, sprite_owner := b s\<rparr>)) (sprite m)\<rparr>"

text \<open>The events that \<open>sector_print\<close> writes.\<close>

definition sector_dump :: "event \<Rightarrow> bool" where
  "sector_dump e = (case e of Stdout_sector s \<Rightarrow> True | _ \<Rightarrow> False)"

text \<open>
  The value of an integer object after the \<open>fread\<close> that finds the stream \<open>s\<close> at
  offset \<open>off\<close>; \<open>w\<close> is the value before.
\<close>

definition fread_at :: "'a::len word \<Rightarrow> nat \<Rightarrow> byte list \<Rightarrow> 'a word" where
  "fread_at w off s = fst (fread_word w (drop off s))"

section \<open>Example inputs\<close>

definition zero_sprite :: sprite_t where
  "zero_sprite =
     \<lparr>sprite_position = \<lparr>vec3_i32_x = 0, vec3_i32_y = 0, vec3_i32_z = 0\<rparr>,
      sprite_stat = 0, sprite_pic = 0, sprite_shade = 0, sprite_pal = 0,
      sprite_clipping_distance = 0, sprite_filler = 0,
      sprite_repeat = \<lparr>vec2_u8_x = 0, vec2_u8_y = 0\<rparr>,
      sprite_offset = \<lparr>vec2_i8_x = 0, vec2_i8_y = 0\<rparr>,
      sprite_sector = 0, sprite_status = 0, sprite_angle = 0, sprite_owner = 0,
      sprite_vel = \<lparr>vec3_i16_x = 0, vec3_i16_y = 0, vec3_i16_z = 0\<rparr>,
      sprite_lotag = 0, sprite_hitag = 0, sprite_extra = 0\<rparr>"

text \<open>A sprite with picture 142, and one with picture 1405.\<close>

definition nuke_button :: "16 word \<Rightarrow> 8 word \<Rightarrow> sprite_t" where
  "nuke_button lotag pal = zero_sprite\<lparr>sprite_pic := 142, sprite_lotag := lotag, sprite_pal := pal\<rparr>"

definition player_start :: "16 word \<Rightarrow> sprite_t" where
  "player_start lotag = zero_sprite\<lparr>sprite_pic := 1405, sprite_lotag := lotag\<rparr>"

text \<open>A map with the given sprites, no sector and no wall.\<close>

definition map_of_sprites :: "sprite_t list \<Rightarrow> map_t" where
  "map_of_sprites sps = zero_map\<lparr>sprite_count := of_nat (length sps), sprite := Some sps\<rparr>"

definition zero_ceilling_floor :: ceilling_floor_t where
  "zero_ceilling_floor =
     \<lparr>cf_shade = 0, cf_height = 0, cf_pic = 0, cf_slope = 0, cf_stat = 0, cf_palette = 0,
      cf_panning = \<lparr>vec2_u8_x = 0, vec2_u8_y = 0\<rparr>\<rparr>"

definition zero_sector :: sector_t where
  "zero_sector =
     \<lparr>sector_wall_ptr = 0, sector_wall_count = 0,
      sector_ceilling = zero_ceilling_floor, sector_floor = zero_ceilling_floor,
      sector_visibility = 0, sector_filler = 0,
      sector_lotag = 0, sector_hitag = 0, sector_extra = 0\<rparr>"

text \<open>
  A map whose index fields point nowhere: its only sector owns five walls from wall -1
  on, and there is no wall; its only sprite is in sector 999 and owned by sprite 5000;
  the player starts in sector 77.
\<close>

definition broken_map :: map_t where
  "broken_map =
     zero_map
      \<lparr>sector_start := 77,
       sector_count := 1,
       sector := Some [zero_sector\<lparr>sector_wall_ptr := - 1, sector_wall_count := 5\<rparr>],
       sprite_count := 1,
       sprite := Some [(nuke_button 65535 0)\<lparr>sprite_sector := 999, sprite_owner := 5000\<rparr>]\<rparr>"

text \<open>
  The 44 bytes of a sprite record in the file: picture 142 at offset 14, lotag at offset
  38, hitag at offset 40, extra at offset 42, the last three with all bits set.
\<close>

definition nuke_bytes :: "byte list" where
  "nuke_bytes =
     [0, 0, 0, 0,  0, 0, 0, 0,  0, 0, 0, 0,  0, 0,  0x8E, 0,  0, 0, 0, 0,  0, 0,  0, 0,
      0, 0,  0, 0,  0, 0,  0, 0,  0, 0, 0, 0, 0, 0,  0xFF, 0xFF,  0xFF, 0xFF,  0xFF, 0xFF]"

definition zero_wall :: wall_t where
  "zero_wall =
     \<lparr>wall_position = \<lparr>vec2_i32_x = 0, vec2_i32_y = 0\<rparr>,
      wall_wall_next_right = 0, wall_wall_next_left = 0, wall_sector_next = 0,
      wall_stat = 0, wall_pic = 0, wall_pic_over = 0, wall_shade = 0, wall_pal = 0,
      wall_repeat = \<lparr>vec2_u8_x = 0, vec2_u8_y = 0\<rparr>,
      wall_panning = \<lparr>vec2_u8_x = 0, vec2_u8_y = 0\<rparr>,
      wall_lotag = 0, wall_hitag = 0, wall_extra = 0\<rparr>"

text \<open>What a block of sectors may hold when \<open>malloc\<close> returns it.\<close>

definition junk_sector :: sector_t where
  "junk_sector =
     zero_sector\<lparr>sector_wall_ptr := 0x5555, sector_wall_count := 0x7777, sector_lotag := 0x1234\<rparr>"

definition junk_memory :: allocator where
  "junk_memory =
     \<lparr>sector_memory = Some (\<lambda>_. junk_sector),
      wall_memory = Some (\<lambda>_. zero_wall),
      sprite_memory = Some (\<lambda>_. zero_sprite)\<rparr>"

text \<open>A file system with one file, which closes without error.\<close>

definition one_file :: "string \<Rightarrow> byte list \<Rightarrow> file_system" where
  "one_file name bytes path =
     (if path = name then Some \<lparr>file_unread = bytes, file_close_ok = True\<rparr> else None)"

text \<open>
  A file that declares two sectors and ends in the second field of the first: version 7,
  a player at the origin, start sector 0, sector count 2, then three bytes.
\<close>

definition truncated_bytes :: "byte list" where
  "truncated_bytes =
     [7, 0, 0, 0,  0, 0, 0, 0,  0, 0, 0, 0,  0, 0, 0, 0,  0, 0,  0, 0,  2, 0,  5, 0, 9]"

section \<open>Properties of the loops\<close>

lemma array_at_ok:
  "array_ok p n \<Longrightarrow> i < n \<Longrightarrow> array_at p i = Inr (the_array p ! i)"
  by (auto simp: array_ok_def array_at_def the_array_def split: option.splits)

lemma array_ok_length: "array_ok p n \<Longrightarrow> length (the_array p) = n"
  by (auto simp: array_ok_def the_array_def split: option.splits)

lemma first_message_Nil: "first_message [] = None"
  by (simp add: first_message_def)

lemma first_message_Cons:
  "first_message (s # sps) =
     (case single_player_check s of Some r \<Rightarrow> Some r | None \<Rightarrow> first_message sps)"
  by (auto simp: first_message_def split: option.splits)

lemma scan_first_message:
  "array_ok (sprite m) (unat (sprite_count m)) \<Longrightarrow>
   is_single_player_scan m i = Inr (first_message (drop i (the_array (sprite m))))"
proof (induction m i rule: is_single_player_scan.induct)
  case (1 m i)
  note ok = "1.prems"
  have len: "length (the_array (sprite m)) = unat (sprite_count m)"
    using ok by (rule array_ok_length)
  show ?case
  proof (cases "i < unat (sprite_count m)")
    case False
    then show ?thesis
      using len by (subst is_single_player_scan.simps) (simp add: first_message_Nil)
  next
    case True
    let ?s = "the_array (sprite m) ! i"
    have at: "array_at (sprite m) i = Inr ?s"
      using ok True by (rule array_at_ok)
    have dr: "drop i (the_array (sprite m)) = ?s # drop (i + 1) (the_array (sprite m))"
      using True len by (simp add: Cons_nth_drop_Suc)
    show ?thesis
    proof (cases "single_player_check ?s")
      case None
      from "1.IH" [OF True at None ok] None True at dr show ?thesis
        by (subst is_single_player_scan.simps) (simp add: first_message_Cons)
    next
      case (Some r)
      with True at dr show ?thesis
        by (subst is_single_player_scan.simps) (simp add: first_message_Cons)
    qed
  qed
qed

lemma dump_no_fault:
  "array_ok (sector m) (unat (sector_count m)) \<Longrightarrow>
   is_single_player_dump m i = (map Stdout_sector (drop i (the_array (sector m))), None)"
proof (induction m i rule: is_single_player_dump.induct)
  case (1 m i)
  note ok = "1.prems"
  have len: "length (the_array (sector m)) = unat (sector_count m)"
    using ok by (rule array_ok_length)
  show ?case
  proof (cases "i < unat (sector_count m)")
    case False
    then show ?thesis
      using len by (subst is_single_player_dump.simps) simp
  next
    case True
    let ?s = "the_array (sector m) ! i"
    have at: "array_at (sector m) i = Inr ?s"
      using ok True by (rule array_at_ok)
    have dr: "drop i (the_array (sector m)) = ?s # drop (i + 1) (the_array (sector m))"
      using True len by (simp add: Cons_nth_drop_Suc)
    from "1.IH" [OF True at ok] True at dr show ?thesis
      by (subst is_single_player_dump.simps) simp
  qed
qed

lemma is_single_player_decoded:
  "decoded m \<Longrightarrow>
   is_single_player m =
     (case first_message (the_array (sprite m)) of
        Some r \<Rightarrow> ([], Inr r)
      | None \<Rightarrow> (map Stdout_sector (the_array (sector m)), Inr ''No''))"
  by (simp add: is_single_player_def decoded_def scan_first_message dump_no_fault
           split: option.splits)

lemma coop_count_filter:
  "array_ok (sprite m) (unat (sprite_count m)) \<Longrightarrow>
   is_coop_count m i r =
     Inr (r + of_nat (length (filter (\<lambda>s. sint (sprite_pic s) = 1405 \<and> sprite_lotag_value s = 1)
                         (drop i (the_array (sprite m))))))"
proof (induction m i r rule: is_coop_count.induct)
  case (1 m i r)
  note ok = "1.prems"
  have len: "length (the_array (sprite m)) = unat (sprite_count m)"
    using ok by (rule array_ok_length)
  show ?case
  proof (cases "i < unat (sprite_count m)")
    case False
    then show ?thesis
      using len by (subst is_coop_count.simps) simp
  next
    case True
    let ?s = "the_array (sprite m) ! i"
    have at: "array_at (sprite m) i = Inr ?s"
      using ok True by (rule array_at_ok)
    have dr: "drop i (the_array (sprite m)) = ?s # drop (i + 1) (the_array (sprite m))"
      using True len by (simp add: Cons_nth_drop_Suc)
    from "1.IH" [OF True at ok] True at dr show ?thesis
      by (subst is_coop_count.simps) simp
  qed
qed

lemma dukematch_count_filter:
  "array_ok (sprite m) (unat (sprite_count m)) \<Longrightarrow>
   is_dukematch_count m i r =
     Inr (r + of_nat (length (filter (\<lambda>s. sint (sprite_pic s) = 1405 \<and> sprite_lotag_value s = 0)
                         (drop i (the_array (sprite m))))))"
proof (induction m i r rule: is_dukematch_count.induct)
  case (1 m i r)
  note ok = "1.prems"
  have len: "length (the_array (sprite m)) = unat (sprite_count m)"
    using ok by (rule array_ok_length)
  show ?case
  proof (cases "i < unat (sprite_count m)")
    case False
    then show ?thesis
      using len by (subst is_dukematch_count.simps) simp
  next
    case True
    let ?s = "the_array (sprite m) ! i"
    have at: "array_at (sprite m) i = Inr ?s"
      using ok True by (rule array_at_ok)
    have dr: "drop i (the_array (sprite m)) = ?s # drop (i + 1) (the_array (sprite m))"
      using True len by (simp add: Cons_nth_drop_Suc)
    from "1.IH" [OF True at ok] True at dr show ?thesis
      by (subst is_dukematch_count.simps) simp
  qed
qed

lemma small_count_unat:
  assumes "n \<le> 65535"
  shows "unat (of_nat n :: 32 word) = n"
  using assms by (simp add: unat_of_nat)

lemma small_count_nonzero:
  assumes "n \<le> 65535"
  shows "((of_nat n :: 32 word) \<noteq> 0) = (n \<noteq> 0)"
proof
  assume "(of_nat n :: 32 word) \<noteq> 0"
  then show "n \<noteq> 0" by (cases n) simp_all
next
  assume "n \<noteq> 0"
  then have "unat (of_nat n :: 32 word) \<noteq> 0"
    using small_count_unat [OF assms] by simp
  then show "(of_nat n :: 32 word) \<noteq> 0" by auto
qed

lemma small_count_signed: 
  assumes "n \<le> 65535"
  shows "signed_take_bit 31 (int (Suc n)) = int (Suc n)"
proof (rule signed_take_bit_int_eq_self)
  show "- (2 ^ 31) \<le> int (Suc n)" by simp
  have "int (Suc n) < 65537" using assms by simp
  also have "\<dots> < 2 ^ 31" by simp
  finally show "int (Suc n) < 2 ^ 31" .
qed

lemma small_count_succ:
  assumes "n \<le> 65535"
  shows "sint ((of_nat n :: 32 word) + 1) = int n + 1"
proof -
  have "(of_nat n :: 32 word) + 1 = of_nat (Suc n)" by simp
  moreover have "sint (of_nat (Suc n) :: 32 word) = signed_take_bit 31 (int (Suc n))"
    by (simp only: signed_of_nat) simp
  ultimately show ?thesis using small_count_signed [OF assms] by (simp add: add.commute)
qed

lemma dec_nat_length: "0 < k \<Longrightarrow> n < 10 ^ k \<Longrightarrow> length (dec_nat n) \<le> k"
proof (induction k arbitrary: n)
  case 0
  then show ?case by simp
next
  case (Suc k)
  show ?case
  proof (cases "n < 10")
    case True
    then show ?thesis by (subst dec_nat.simps) simp
  next
    case False
    then have "0 < k" using Suc.prems by (cases k) auto
    moreover have "n div 10 < 10 ^ k" using Suc.prems by (simp add: less_mult_imp_div_less)
    ultimately have "length (dec_nat (n div 10)) \<le> k" by (rule Suc.IH)
    with False show ?thesis by (subst dec_nat.simps) simp
  qed
qed


lemma yes_players_text:
  assumes "n \<le> 65535"
  shows "yes_players (of_nat n) = ''Yes ('' @ printf_d (int n + 1) @ '' players)''"
proof -
  have "Suc n < 10 ^ 5" using assms by simp
  then have "length (dec_nat (Suc n)) \<le> 5" by (intro dec_nat_length) simp_all
  moreover have "printf_d (int n + 1) = dec_nat (Suc n)"
    by (simp add: printf_d_def nat_add_distrib)
  ultimately have "length (''Yes ('' @ printf_d (int n + 1) @ '' players)'') \<le> 255"
    by simp
  then show ?thesis
    unfolding yes_players_def snprintf_def small_count_succ [OF assms] by simp
qed

lemma sprite_count_bound:
  "array_ok (sprite m) (unat (sprite_count m)) \<Longrightarrow>
   length (filter P (the_array (sprite m))) \<le> 65535"
proof -
  assume ok: "array_ok (sprite m) (unat (sprite_count m))"
  have "unat (sprite_count m) < 2 ^ 16" using unsigned_less [of "sprite_count m"] by simp
  then have "length (the_array (sprite m)) \<le> 65535"
    using array_ok_length [OF ok] by simp
  with length_filter_le [of P "the_array (sprite m)"] show ?thesis by linarith
qed

lemma is_coop_decoded:
  assumes "decoded m"
  shows "is_coop m buffer =
     (if 0 < length (filter (\<lambda>s. sint (sprite_pic s) = 1405 \<and> sprite_lotag_value s = 1)
                     (the_array (sprite m)))
      then Inr (''Yes ('' @ printf_d (int (length (filter (\<lambda>s. sint (sprite_pic s) = 1405 \<and> sprite_lotag_value s = 1)
                     (the_array (sprite m)))) + 1) @ '' players)'',
                ''Yes ('' @ printf_d (int (length (filter (\<lambda>s. sint (sprite_pic s) = 1405 \<and> sprite_lotag_value s = 1)
                     (the_array (sprite m)))) + 1) @ '' players)'')
      else Inr (''No'', buffer))"
proof -
  have ok: "array_ok (sprite m) (unat (sprite_count m))"
    using assms by (simp add: decoded_def)
  let ?n = "length (filter (\<lambda>s. sint (sprite_pic s) = 1405 \<and> sprite_lotag_value s = 1)
                     (the_array (sprite m)))"
  have b: "?n \<le> 65535" using ok by (rule sprite_count_bound)
  have c: "is_coop_count m 0 0 = Inr (of_nat ?n)"
    by (simp add: coop_count_filter [OF ok])
  show ?thesis
    unfolding is_coop_def c using small_count_nonzero [OF b] yes_players_text [OF b]
    by simp
qed

lemma is_dukematch_decoded:
  assumes "decoded m"
  shows "is_dukematch m buffer =
     (if 0 < length (filter (\<lambda>s. sint (sprite_pic s) = 1405 \<and> sprite_lotag_value s = 0)
                     (the_array (sprite m)))
      then Inr (''Yes ('' @ printf_d (int (length (filter (\<lambda>s. sint (sprite_pic s) = 1405 \<and> sprite_lotag_value s = 0)
                     (the_array (sprite m)))) + 1) @ '' players)'',
                ''Yes ('' @ printf_d (int (length (filter (\<lambda>s. sint (sprite_pic s) = 1405 \<and> sprite_lotag_value s = 0)
                     (the_array (sprite m)))) + 1) @ '' players)'')
      else Inr (''No'', buffer))"
proof -
  have ok: "array_ok (sprite m) (unat (sprite_count m))"
    using assms by (simp add: decoded_def)
  let ?n = "length (filter (\<lambda>s. sint (sprite_pic s) = 1405 \<and> sprite_lotag_value s = 0)
                     (the_array (sprite m)))"
  have b: "?n \<le> 65535" using ok by (rule sprite_count_bound)
  have c: "is_dukematch_count m 0 0 = Inr (of_nat ?n)"
    by (simp add: dukematch_count_filter [OF ok])
  show ?thesis
    unfolding is_dukematch_def c using small_count_nonzero [OF b] yes_players_text [OF b]
    by simp
qed

lemma decoded_map_of_sprites:
  "length sps \<le> 65535 \<Longrightarrow> decoded (map_of_sprites sps)"
  by (simp add: decoded_def map_of_sprites_def zero_map_def array_ok_def unat_of_nat)

lemma single_player_check_Some:
  "(single_player_check s \<noteq> None) =
     (sint (sprite_pic s) = 142
      \<and> (sprite_lotag_value s \<in> {32767, 65534, 65535} \<or> uint (sprite_pal s) = 14))"
  by (simp add: single_player_check_def)

lemma single_player_check_text:
  "single_player_check s \<noteq> None \<Longrightarrow>
   single_player_check s =
     Some (if sprite_lotag_value s = 32767 then yes_unknown
           else if sprite_lotag_value s = 65534 then yes_fry
           else if sprite_lotag_value s = 65535 then yes_nuke_button
           else yes_secret_exit)"
  by (simp add: single_player_check_def split: if_splits)

lemma single_player_texts_distinct:
  "distinct [''No'', yes_unknown, yes_fry, yes_nuke_button, yes_secret_exit]"
  by (simp add: yes_unknown_def yes_fry_def yes_nuke_button_def yes_secret_exit_def)

lemma single_player_result:
  assumes "decoded m"
  shows "snd (is_single_player m) =
     Inr (case find (\<lambda>s. single_player_check s \<noteq> None) (the_array (sprite m)) of
            None \<Rightarrow> ''No''
          | Some s \<Rightarrow>
              if sprite_lotag_value s = 32767 then yes_unknown
              else if sprite_lotag_value s = 65534 then yes_fry
              else if sprite_lotag_value s = 65535 then yes_nuke_button
              else yes_secret_exit)"
proof (cases "find (\<lambda>s. single_player_check s \<noteq> None) (the_array (sprite m))")
  case None
  then show ?thesis
    by (simp add: is_single_player_decoded [OF assms] first_message_def)
next
  case (Some s)
  then have "single_player_check s \<noteq> None"
    by (auto simp: find_Some_iff)
  from single_player_check_text [OF this] Some show ?thesis
    by (simp add: is_single_player_decoded [OF assms] first_message_def)
qed

lemma in_order_Nil: "in_order [] st = st"
  by (simp add: in_order_def)

lemma in_order_Cons: "in_order (step # steps) st = in_order steps (step st)"
  by (simp add: in_order_def)

lemma fread_field_bytes:
  "fread_field get upd (r, s) =
     (upd (\<lambda>_. fst (fread_word (get r) s)) r, snd (fread_word (get r) s))"
  by (simp add: fread_field_def split: prod.splits)

lemma length_le_bytes: "length (le_bytes n w) = n"
  by (induction n arbitrary: w) simp_all

lemma fread_word_full:
  "LENGTH('a) div 8 \<le> length s \<Longrightarrow>
   fread_word (w :: 'a::len word) s =
     (of_le_bytes (take (LENGTH('a) div 8) s), drop (LENGTH('a) div 8) s)"
  by (simp add: fread_word_def fread_def length_le_bytes)

lemma single_player_No:
  assumes "decoded m"
  shows "(snd (is_single_player m) = Inr ''No'') =
           (\<forall>s \<in> set (the_array (sprite m)). single_player_check s = None)"
proof (cases "find (\<lambda>s. single_player_check s \<noteq> None) (the_array (sprite m))")
  case None
  have "snd (is_single_player m) = Inr ''No''"
    unfolding single_player_result [OF assms] None by simp
  moreover have "\<forall>s \<in> set (the_array (sprite m)). single_player_check s = None"
    using None unfolding find_None_iff by blast
  ultimately show ?thesis by simp
next
  case (Some s)
  then have "s \<in> set (the_array (sprite m))" and "single_player_check s \<noteq> None"
    by (auto simp: find_Some_iff)
  then have "\<not> (\<forall>s \<in> set (the_array (sprite m)). single_player_check s = None)" by auto
  moreover have "snd (is_single_player m) \<noteq> Inr ''No''"
    unfolding single_player_result [OF assms] Some using single_player_texts_distinct by auto
  ultimately show ?thesis by simp
qed

lemma first_message_map:
  assumes "\<And>s. single_player_check (h s) = single_player_check s"
  shows "first_message (map h sps) = first_message sps"
  by (induction sps) (simp_all add: first_message_Nil first_message_Cons assms split: option.splits)

lemma filter_map_length:
  assumes "\<And>s. P (h s) = P s"
  shows "length (filter P (map h sps)) = length (filter P sps)"
  by (induction sps) (simp_all add: assms)

lemma array_ok_map: "array_ok (map_option (map h) p) n = array_ok p n"
  by (cases p) (simp_all add: array_ok_def)

lemma the_array_map: "the_array (map_option (map h) p) = map h (the_array p)"
  by (cases p) (simp_all add: the_array_def)

lemma classification_ignores_index_fields:
  assumes "decoded m"
  shows "decoded (with_index_fields start p c r l n a b m)"
    and "snd (is_single_player (with_index_fields start p c r l n a b m)) =
           snd (is_single_player m)"
    and "is_coop (with_index_fields start p c r l n a b m) buffer = is_coop m buffer"
    and "is_dukematch (with_index_fields start p c r l n a b m) buffer = is_dukematch m buffer"
    and "is_vanilla_compatible (with_index_fields start p c r l n a b m) =
           is_vanilla_compatible m"
proof -
  define m' where "m' = with_index_fields start p c r l n a b m"
  show d': "decoded (with_index_fields start p c r l n a b m)"
    using assms by (simp add: with_index_fields_def decoded_def array_ok_map)
  then have dm': "decoded m'" by (simp add: m'_def)
  have sprites: "the_array (sprite m') =
      map (\<lambda>s. s\<lparr>sprite_sector := a s, sprite_owner := b s\<rparr>) (the_array (sprite m))"
    by (simp add: m'_def with_index_fields_def the_array_map)
  have single: "snd (is_single_player m) =
      (case first_message (the_array (sprite m)) of Some r \<Rightarrow> Inr r | None \<Rightarrow> Inr ''No'')"
    if "decoded m" for m :: map_t
    using that by (simp add: is_single_player_decoded split: option.splits)
  have fm: "first_message (the_array (sprite m')) = first_message (the_array (sprite m))"
    unfolding sprites
    by (rule first_message_map) (simp add: single_player_check_def sprite_lotag_value_def)
  have "snd (is_single_player m') = snd (is_single_player m)"
    by (simp add: single [OF assms] single [OF dm'] fm)
  then show "snd (is_single_player (with_index_fields start p c r l n a b m)) =
           snd (is_single_player m)"
    by (simp add: m'_def)
  have c1: "length (filter (\<lambda>s. sint (sprite_pic s) = 1405 \<and> sprite_lotag_value s = 1)
                    (map (\<lambda>s. s\<lparr>sprite_sector := a s, sprite_owner := b s\<rparr>)
                       (the_array (sprite m)))) =
            length (filter (\<lambda>s. sint (sprite_pic s) = 1405 \<and> sprite_lotag_value s = 1)
                    (the_array (sprite m)))"
    by (rule filter_map_length) (simp add: sprite_lotag_value_def)
  have c0: "length (filter (\<lambda>s. sint (sprite_pic s) = 1405 \<and> sprite_lotag_value s = 0)
                    (map (\<lambda>s. s\<lparr>sprite_sector := a s, sprite_owner := b s\<rparr>)
                       (the_array (sprite m)))) =
            length (filter (\<lambda>s. sint (sprite_pic s) = 1405 \<and> sprite_lotag_value s = 0)
                    (the_array (sprite m)))"
    by (rule filter_map_length) (simp add: sprite_lotag_value_def)
  have "is_coop m' buffer = is_coop m buffer"
    unfolding is_coop_decoded [OF assms] is_coop_decoded [OF dm'] sprites c1 ..
  then show "is_coop (with_index_fields start p c r l n a b m) buffer = is_coop m buffer"
    by (simp add: m'_def)
  have "is_dukematch m' buffer = is_dukematch m buffer"
    unfolding is_dukematch_decoded [OF assms] is_dukematch_decoded [OF dm'] sprites c0 ..
  then show "is_dukematch (with_index_fields start p c r l n a b m) buffer = is_dukematch m buffer"
    by (simp add: m'_def)
  show "is_vanilla_compatible (with_index_fields start p c r l n a b m) =
           is_vanilla_compatible m"
    by (simp add: with_index_fields_def is_vanilla_compatible_def)
qed


text \<open>
  What \<open>decoded\<close> excludes: after a failed allocation for a count above zero the
  pointer is null, and the first iteration of a loop over the array reads through it.
\<close>

lemma null_sprite_array:
  assumes "sprite m = None" and "0 < unat (sprite_count m)"
  shows "is_single_player m = ([], Inl Null_dereference)"
    and "is_coop m buffer = Inl Null_dereference"
    and "is_dukematch m buffer = Inl Null_dereference"
proof -
  have "is_single_player_scan m 0 = Inl Null_dereference"
    using assms by (subst is_single_player_scan.simps) (simp add: array_at_def)
  then show "is_single_player m = ([], Inl Null_dereference)"
    by (simp add: is_single_player_def)
  have "is_coop_count m 0 0 = Inl Null_dereference"
    using assms by (subst is_coop_count.simps) (simp add: array_at_def)
  then show "is_coop m buffer = Inl Null_dereference"
    by (simp add: is_coop_def)
  have "is_dukematch_count m 0 0 = Inl Null_dereference"
    using assms by (subst is_dukematch_count.simps) (simp add: array_at_def)
  then show "is_dukematch m buffer = Inl Null_dereference"
    by (simp add: is_dukematch_def)
qed

section \<open>Properties of the reading functions\<close>

lemma of_le_bytes_le_bytes:
  "of_le_bytes (le_bytes n w) = take_bit (8 * n) (w :: 'a::len word)"
proof (induction n arbitrary: w)
  case 0
  then show ?case by simp
next
  case (Suc n)
  have "(ucast (ucast w :: byte) :: 'a word) OR push_bit 8 (take_bit (8 * n) (drop_bit 8 w))
        = take_bit (8 * Suc n) w"
    by (rule bit_word_eqI) (auto simp: bit_simps)
  with Suc show ?case by simp
qed

lemma le_bytes_roundtrip:
  "8 dvd LENGTH('a) \<Longrightarrow> of_le_bytes (le_bytes (LENGTH('a) div 8) w) = (w :: 'a::len word)"
  by (simp add: of_le_bytes_le_bytes take_bit_word_eq_self)

lemma fread_word_eof:
  "8 dvd LENGTH('a) \<Longrightarrow> fread_word (w :: 'a::len word) [] = (w, [])"
  by (simp add: fread_word_def fread_def le_bytes_roundtrip)

lemma fread_field_eof:
  assumes "8 dvd LENGTH('a)" and "\<And>r. upd (\<lambda>_. get r) r = r"
  shows "fread_field (get :: 'r \<Rightarrow> 'a::len word) upd (r, []) = (r, [])"
  by (simp add: fread_field_def fread_word_eof assms)

lemma sector_read_eof: "sector_read (x, []) = (x, [])"
  by (simp add: sector_read_def in_order_Cons in_order_Nil fread_field_eof)

lemma wall_read_eof: "wall_read (x, []) = (x, [])"
  by (simp add: wall_read_def in_order_Cons in_order_Nil fread_field_eof)

lemma sprite_read_eof: "sprite_read (x, []) = (x, [])"
  by (simp add: sprite_read_def in_order_Cons in_order_Nil fread_field_eof)

lemma read_records_eof:
  assumes "\<And>x. rd (x, []) = (x, [])"
  shows "read_records rd n i xs [] = (xs, [])"
proof (induction "n - i" arbitrary: i)
  case 0
  then show ?case by (subst read_records.simps) simp
next
  case (Suc d)
  then have "d = n - (i + 1)" by simp
  then have "read_records rd n (i + 1) xs [] = (xs, [])" by (rule Suc.hyps(1))
  then show ?case by (subst read_records.simps) (simp add: assms)
qed

lemma read_records_length:
  "length (fst (read_records rd n i xs s)) = length xs"
proof (induction rd n i xs s rule: read_records.induct)
  case (1 rd n i xs s)
  show ?case
  proof (cases "i < n")
    case True
    obtain x s' where r: "rd (xs ! i, s) = (x, s')" by (cases "rd (xs ! i, s)")
    from "1.IH" [OF True r [symmetric]] True r show ?thesis
      by (subst read_records.simps) simp
  next
    case False
    then show ?thesis by (subst read_records.simps) simp
  qed
qed

lemma le_bytes_2: "le_bytes 2 w = [ucast w, ucast (drop_bit 8 w)]"
  unfolding numeral_2_eq_2 by simp

lemma fread_word_short:
  "fread_word (w :: 16 word) [b] = (ucast b OR push_bit 8 (ucast (ucast (drop_bit 8 w) :: byte)), [])"
  by (simp add: fread_word_def fread_def le_bytes_2)


lemma malloc_length: "malloc mem n = Some block \<Longrightarrow> length block = n"
  by (auto simp: malloc_def split: option.splits)

lemma malloc_None: "mem \<noteq> None \<Longrightarrow> malloc mem n \<noteq> None"
  by (auto simp: malloc_def split: option.splits)

lemma map_read_sectors_ok:
  assumes "sector_memory mem \<noteq> None" and "map_read_sectors mem (m, s) = (m', s')"
  shows "array_ok (sector m') (unat (sector_count m'))"
proof -
  obtain block where b: "malloc (sector_memory mem)
      (unat (fst (fread_word (sector_count m) s))) = Some block"
    using malloc_None [OF assms(1)] by blast
  show ?thesis
    using assms(2) malloc_length [OF b]
      read_records_length [of sector_read "unat (fst (fread_word (sector_count m) s))" 0 block
        "snd (fread_word (sector_count m) s)"]
    by (auto simp: map_read_sectors_def fread_field_bytes b array_ok_def split: prod.splits)
qed

lemma map_read_walls_ok:
  assumes "wall_memory mem \<noteq> None" and "map_read_walls mem (m, s) = (m', s')"
  shows "array_ok (wall m') (unat (wall_count m'))"
proof -
  obtain block where b: "malloc (wall_memory mem)
      (unat (fst (fread_word (wall_count m) s))) = Some block"
    using malloc_None [OF assms(1)] by blast
  show ?thesis
    using assms(2) malloc_length [OF b]
      read_records_length [of wall_read "unat (fst (fread_word (wall_count m) s))" 0 block
        "snd (fread_word (wall_count m) s)"]
    by (auto simp: map_read_walls_def fread_field_bytes b array_ok_def split: prod.splits)
qed

lemma map_read_sprites_ok:
  assumes "sprite_memory mem \<noteq> None" and "map_read_sprites mem (m, s) = (m', s')"
  shows "array_ok (sprite m') (unat (sprite_count m'))"
proof -
  obtain block where b: "malloc (sprite_memory mem)
      (unat (fst (fread_word (sprite_count m) s))) = Some block"
    using malloc_None [OF assms(1)] by blast
  show ?thesis
    using assms(2) malloc_length [OF b]
      read_records_length [of sprite_read "unat (fst (fread_word (sprite_count m) s))" 0 block
        "snd (fread_word (sprite_count m) s)"]
    by (auto simp: map_read_sprites_def fread_field_bytes b array_ok_def split: prod.splits)
qed

lemma map_read_walls_frame:
  "map_read_walls mem (m, s) = (m', s') \<Longrightarrow>
   sector m' = sector m \<and> sector_count m' = sector_count m"
  by (auto simp: map_read_walls_def fread_field_bytes split: prod.splits option.splits)

lemma map_read_sprites_frame:
  "map_read_sprites mem (m, s) = (m', s') \<Longrightarrow>
   sector m' = sector m \<and> sector_count m' = sector_count m
   \<and> wall m' = wall m \<and> wall_count m' = wall_count m"
  by (auto simp: map_read_sprites_def fread_field_bytes split: prod.splits option.splits)

lemma map_read_arrays_decoded:
  assumes "sector_memory mem \<noteq> None" and "wall_memory mem \<noteq> None"
    and "sprite_memory mem \<noteq> None"
  shows "decoded (fst (in_order [map_read_header, map_read_sectors mem, map_read_walls mem,
                                 map_read_sprites mem] (m, s)))"
proof -
  obtain m0 s0 where h: "map_read_header (m, s) = (m0, s0)" by (cases "map_read_header (m, s)")
  obtain m1 s1 where a: "map_read_sectors mem (m0, s0) = (m1, s1)"
    by (cases "map_read_sectors mem (m0, s0)")
  obtain m2 s2 where b: "map_read_walls mem (m1, s1) = (m2, s2)"
    by (cases "map_read_walls mem (m1, s1)")
  obtain m3 s3 where c: "map_read_sprites mem (m2, s2) = (m3, s3)"
    by (cases "map_read_sprites mem (m2, s2)")
  have "array_ok (sector m3) (unat (sector_count m3))"
    using map_read_sectors_ok [OF assms(1) a] map_read_walls_frame [OF b]
      map_read_sprites_frame [OF c] by simp
  moreover have "array_ok (wall m3) (unat (wall_count m3))"
    using map_read_walls_ok [OF assms(2) b] map_read_sprites_frame [OF c] by simp
  moreover have "array_ok (sprite m3) (unat (sprite_count m3))"
    using map_read_sprites_ok [OF assms(3) c] .
  ultimately show ?thesis
    by (simp add: in_order_Cons in_order_Nil h a b c decoded_def)
qed

lemma map_read_opened:
  assumes "fs path = Some fp" and "file_close_ok fp"
  shows "map_read mem fs m path =
     ([], Returns (fst (in_order [map_read_header, map_read_sectors mem, map_read_walls mem,
                                  map_read_sprites mem] (m, file_unread fp))))"
  using assms
  by (simp add: map_read_def safe_fopen_def safe_fclose_def and_then_def split: prod.splits)

lemma le_bytes_take_bit:
  "8 * n \<le> m \<Longrightarrow> le_bytes n (take_bit m w) = le_bytes n (w :: 'a::len word)"
proof (induction n arbitrary: w m)
  case 0
  then show ?case by simp
next
  case (Suc n)
  have a: "(ucast (take_bit m w) :: byte) = ucast w"
    using Suc.prems by (intro bit_word_eqI) (auto simp: bit_simps)
  have b: "drop_bit 8 (take_bit m w) = take_bit (m - 8) (drop_bit 8 w)"
    using Suc.prems by (intro bit_word_eqI) (auto simp: bit_simps)
  have "8 * n \<le> m - 8" using Suc.prems by simp
  from Suc.IH [OF this] a b show ?case by simp
qed

lemma le_bytes_of_le_bytes:
  "length bs = n \<Longrightarrow> 8 * n \<le> LENGTH('a) \<Longrightarrow> le_bytes n (of_le_bytes bs :: 'a::len word) = bs"
proof (induction bs arbitrary: n)
  case Nil
  then show ?case by simp
next
  case (Cons b bs)
  then obtain n' where n: "n = Suc n'" and len: "length bs = n'" by (cases n) auto
  let ?W = "of_le_bytes bs :: 'a word"
  have le: "8 * n' \<le> LENGTH('a) - 8" using Cons.prems n by simp
  have a: "(ucast (ucast b OR push_bit 8 ?W :: 'a word) :: byte) = b"
    using Cons.prems n by (intro bit_word_eqI) (auto simp: bit_simps)
  have b: "drop_bit 8 (ucast b OR push_bit 8 ?W :: 'a word) = take_bit (LENGTH('a) - 8) ?W"
    using Cons.prems n by (intro bit_word_eqI) (auto simp: bit_simps dest: bit_imp_le_length)
  have "le_bytes n' (take_bit (LENGTH('a) - 8) ?W) = le_bytes n' ?W"
    using le by (rule le_bytes_take_bit)
  also have "\<dots> = bs"
    using len Cons.prems n by (intro Cons.IH) simp_all
  finally show ?case using a b n by simp
qed

lemma fread_word_rest: "snd (fread_word (w :: 'a::len word) s) = drop (LENGTH('a) div 8) s"
  by (simp add: fread_word_def fread_def length_le_bytes split: prod.splits)

lemma fread_field_at:
  "fread_field (get :: 'r \<Rightarrow> 'a::len word) upd (r, drop off s) =
     (upd (\<lambda>_. fread_at (get r) off s) r, drop (off + LENGTH('a) div 8) s)"
  by (simp add: fread_field_bytes fread_word_rest fread_at_def add.commute)

lemma fread_field_at0:
  "fread_field (get :: 'r \<Rightarrow> 'a::len word) upd (r, s) =
     (upd (\<lambda>_. fread_at (get r) 0 s) r, drop (LENGTH('a) div 8) s)"
  using fread_field_at [of get upd r 0 s] by simp

lemma fread_at_drop: "fread_at w a (drop b s) = fread_at w (a + b) s"
  by (simp add: fread_at_def add.commute)

lemma four_successors: "Suc (Suc (Suc (Suc n))) = n + 4"
  by simp

lemma sector_read_at:
  "sector_read (x, drop off s) =
     (x\<lparr>sector_wall_ptr := fread_at (sector_wall_ptr x) off s,
        sector_wall_count := fread_at (sector_wall_count x) (off + 2) s,
        sector_ceilling :=
          (sector_ceilling x)
            \<lparr>cf_height := fread_at (cf_height (sector_ceilling x)) (off + 4) s,
             cf_stat := fread_at (cf_stat (sector_ceilling x)) (off + 12) s,
             cf_pic := fread_at (cf_pic (sector_ceilling x)) (off + 16) s,
             cf_slope := fread_at (cf_slope (sector_ceilling x)) (off + 18) s,
             cf_shade := fread_at (cf_shade (sector_ceilling x)) (off + 20) s,
             cf_palette := fread_at (cf_palette (sector_ceilling x)) (off + 21) s,
             cf_panning :=
               (cf_panning (sector_ceilling x))
                 \<lparr>vec2_u8_x := fread_at (vec2_u8_x (cf_panning (sector_ceilling x))) (off + 22) s,
                  vec2_u8_y := fread_at (vec2_u8_y (cf_panning (sector_ceilling x))) (off + 23) s\<rparr>\<rparr>,
        sector_floor :=
          (sector_floor x)
            \<lparr>cf_height := fread_at (cf_height (sector_floor x)) (off + 8) s,
             cf_stat := fread_at (cf_stat (sector_floor x)) (off + 14) s,
             cf_pic := fread_at (cf_pic (sector_floor x)) (off + 24) s,
             cf_slope := fread_at (cf_slope (sector_floor x)) (off + 26) s,
             cf_shade := fread_at (cf_shade (sector_floor x)) (off + 28) s,
             cf_palette := fread_at (cf_palette (sector_floor x)) (off + 29) s,
             cf_panning :=
               (cf_panning (sector_floor x))
                 \<lparr>vec2_u8_x := fread_at (vec2_u8_x (cf_panning (sector_floor x))) (off + 30) s,
                  vec2_u8_y := fread_at (vec2_u8_y (cf_panning (sector_floor x))) (off + 31) s\<rparr>\<rparr>,
        sector_visibility := fread_at (sector_visibility x) (off + 32) s,
        sector_filler := fread_at (sector_filler x) (off + 33) s,
        sector_lotag := fread_at (sector_lotag x) (off + 34) s,
        sector_hitag := fread_at (sector_hitag x) (off + 36) s,
        sector_extra := fread_at (sector_extra x) (off + 38) s\<rparr>,
      drop (off + 40) s)"
  by (auto simp: sector_read_def in_order_Cons in_order_Nil fread_field_at o_def add.commute four_successors
        intro!: sector_t.equality ceilling_floor_t.equality)


lemma wall_read_at:
  "wall_read (x, drop off s) =
     (x\<lparr>wall_position :=
          (wall_position x)
            \<lparr>vec2_i32_x := fread_at (vec2_i32_x (wall_position x)) off s,
             vec2_i32_y := fread_at (vec2_i32_y (wall_position x)) (off + 4) s\<rparr>,
        wall_wall_next_right := fread_at (wall_wall_next_right x) (off + 8) s,
        wall_wall_next_left := fread_at (wall_wall_next_left x) (off + 10) s,
        wall_sector_next := fread_at (wall_sector_next x) (off + 12) s,
        wall_stat := fread_at (wall_stat x) (off + 14) s,
        wall_pic := fread_at (wall_pic x) (off + 16) s,
        wall_pic_over := fread_at (wall_pic_over x) (off + 18) s,
        wall_shade := fread_at (wall_shade x) (off + 20) s,
        wall_pal := fread_at (wall_pal x) (off + 21) s,
        wall_repeat :=
          (wall_repeat x)
            \<lparr>vec2_u8_x := fread_at (vec2_u8_x (wall_repeat x)) (off + 22) s,
             vec2_u8_y := fread_at (vec2_u8_y (wall_repeat x)) (off + 23) s\<rparr>,
        wall_panning :=
          (wall_panning x)
            \<lparr>vec2_u8_x := fread_at (vec2_u8_x (wall_panning x)) (off + 24) s,
             vec2_u8_y := fread_at (vec2_u8_y (wall_panning x)) (off + 25) s\<rparr>,
        wall_lotag := fread_at (wall_lotag x) (off + 26) s,
        wall_hitag := fread_at (wall_hitag x) (off + 28) s,
        wall_extra := fread_at (wall_extra x) (off + 30) s\<rparr>,
      drop (off + 32) s)"
  by (auto simp: wall_read_def in_order_Cons in_order_Nil fread_field_at o_def add.commute four_successors
        intro!: wall_t.equality)

lemma sprite_read_at:
  "sprite_read (x, drop off s) =
     (x\<lparr>sprite_position :=
          (sprite_position x)
            \<lparr>vec3_i32_x := fread_at (vec3_i32_x (sprite_position x)) off s,
             vec3_i32_y := fread_at (vec3_i32_y (sprite_position x)) (off + 4) s,
             vec3_i32_z := fread_at (vec3_i32_z (sprite_position x)) (off + 8) s\<rparr>,
        sprite_stat := fread_at (sprite_stat x) (off + 12) s,
        sprite_pic := fread_at (sprite_pic x) (off + 14) s,
        sprite_shade := fread_at (sprite_shade x) (off + 16) s,
        sprite_pal := fread_at (sprite_pal x) (off + 17) s,
        sprite_clipping_distance := fread_at (sprite_clipping_distance x) (off + 18) s,
        sprite_filler := fread_at (sprite_filler x) (off + 19) s,
        sprite_repeat :=
          (sprite_repeat x)
            \<lparr>vec2_u8_x := fread_at (vec2_u8_x (sprite_repeat x)) (off + 20) s,
             vec2_u8_y := fread_at (vec2_u8_y (sprite_repeat x)) (off + 21) s\<rparr>,
        sprite_offset :=
          (sprite_offset x)
            \<lparr>vec2_i8_x := fread_at (vec2_i8_x (sprite_offset x)) (off + 22) s,
             vec2_i8_y := fread_at (vec2_i8_y (sprite_offset x)) (off + 23) s\<rparr>,
        sprite_sector := fread_at (sprite_sector x) (off + 24) s,
        sprite_status := fread_at (sprite_status x) (off + 26) s,
        sprite_angle := fread_at (sprite_angle x) (off + 28) s,
        sprite_owner := fread_at (sprite_owner x) (off + 30) s,
        sprite_vel :=
          (sprite_vel x)
            \<lparr>vec3_i16_x := fread_at (vec3_i16_x (sprite_vel x)) (off + 32) s,
             vec3_i16_y := fread_at (vec3_i16_y (sprite_vel x)) (off + 34) s,
             vec3_i16_z := fread_at (vec3_i16_z (sprite_vel x)) (off + 36) s\<rparr>,
        sprite_lotag := fread_at (sprite_lotag x) (off + 38) s,
        sprite_hitag := fread_at (sprite_hitag x) (off + 40) s,
        sprite_extra := fread_at (sprite_extra x) (off + 42) s\<rparr>,
      drop (off + 44) s)"
  by (auto simp: sprite_read_def in_order_Cons in_order_Nil fread_field_at o_def add.commute four_successors
        intro!: sprite_t.equality)

lemma map_read_header_at:
  "map_read_header (m, s) =
     (m\<lparr>version := fread_at (version m) 0 s,
        player :=
          (player m)
            \<lparr>player_position :=
               (player_position (player m))
                 \<lparr>vec3_i32_x := fread_at (vec3_i32_x (player_position (player m))) 4 s,
                  vec3_i32_y := fread_at (vec3_i32_y (player_position (player m))) 8 s,
                  vec3_i32_z := fread_at (vec3_i32_z (player_position (player m))) 12 s\<rparr>,
             player_angle := fread_at (player_angle (player m)) 16 s\<rparr>,
        sector_start := fread_at (sector_start m) 18 s\<rparr>,
      drop 20 s)"
  by (auto simp: map_read_header_def in_order_Cons in_order_Nil fread_field_at0 fread_at_drop
        o_def intro!: map_t.equality player_t.equality)

lemma read_records_at:
  assumes rest: "\<And>x off. snd (rd (x, drop off s)) = drop (off + k) s"
  shows "length (fst (read_records rd n i xs (drop off s))) = length xs
     \<and> snd (read_records rd n i xs (drop off s)) = drop (off + (n - i) * k) s
     \<and> (\<forall>j < length xs.
            fst (read_records rd n i xs (drop off s)) ! j =
              (if i \<le> j \<and> j < n then fst (rd (xs ! j, drop (off + (j - i) * k) s))
               else xs ! j))"
proof (induction "n - i" arbitrary: i xs off)
  case 0
  then have "\<not> i < n" by simp
  then show ?case by (subst (1 2 3) read_records.simps) auto
next
  case (Suc d)
  then have lt: "i < n" and d: "d = n - (i + 1)" by simp_all
  obtain x where x: "rd (xs ! i, drop off s) = (x, drop (off + k) s)"
    using rest [of "xs ! i" off] by (cases "rd (xs ! i, drop off s)") simp
  have step: "read_records rd n i xs (drop off s) =
      read_records rd n (i + 1) (xs[i := x]) (drop (off + k) s)"
    using lt by (subst read_records.simps) (simp add: x)
  note ih = Suc.hyps(1) [OF d, of "xs[i := x]" "off + k"]
  have len: "length (fst (read_records rd n i xs (drop off s))) = length xs"
    using ih by (simp add: step)
  have snd: "snd (read_records rd n i xs (drop off s)) = drop (off + (n - i) * k) s"
  proof -
    have "n - i = Suc (n - (i + 1))" using lt by arith
    then have "off + k + (n - (i + 1)) * k = off + (n - i) * k" by simp
    with ih show ?thesis by (simp only: step)
  qed
  have nth: "fst (read_records rd n i xs (drop off s)) ! j =
              (if i \<le> j \<and> j < n then fst (rd (xs ! j, drop (off + (j - i) * k) s))
               else xs ! j)" if j: "j < length xs" for j
  proof -
    have j': "j < length (xs[i := x])" using j by simp
    have next_j: "fst (read_records rd n (i + 1) (xs[i := x]) (drop (off + k) s)) ! j =
        (if i + 1 \<le> j \<and> j < n
         then fst (rd (xs[i := x] ! j, drop (off + k + (j - (i + 1)) * k) s))
         else xs[i := x] ! j)"
      using ih j' by blast
    show ?thesis
    proof (cases "j = i")
      case True
      have "fst (rd (xs ! i, drop off s)) = x" by (simp add: x)
      with next_j True j lt show ?thesis by (simp add: step)
    next
      case False
      show ?thesis
      proof (cases "i + 1 \<le> j \<and> j < n")
        case True
        then have "j - i = Suc (j - (i + 1))" by arith
        then have "off + k + (j - (i + 1)) * k = off + (j - i) * k" by simp
        then have "drop (off + k + (j - (i + 1)) * k) s = drop (off + (j - i) * k) s"
          by (rule arg_cong)
        moreover have "xs[i := x] ! j = xs ! j" using False by simp
        moreover have "i \<le> j \<and> j < n" using True by simp
        ultimately show ?thesis using next_j True by (simp only: step if_True)
      next
        case out: False
        have "xs[i := x] ! j = xs ! j" using False by simp
        moreover have "\<not> (i \<le> j \<and> j < n)" using out False by auto
        ultimately show ?thesis using next_j out by (simp only: step if_False)
      qed
    qed
  qed
  from len snd nth show ?case by blast
qed

lemma read_block_at:
  assumes rest: "\<And>x off. snd (rd (x, drop off s)) = drop (off + k) s"
  shows "read_records rd n 0 (map junk [0..<n]) (drop off s) =
     (map (\<lambda>j. fst (rd (junk j, drop (off + j * k) s))) [0..<n], drop (off + n * k) s)"
proof -
  note at = read_records_at [of rd s k n 0 "map junk [0..<n]" off, OF rest]
  have "fst (read_records rd n 0 (map junk [0..<n]) (drop off s)) =
      map (\<lambda>j. fst (rd (junk j, drop (off + j * k) s))) [0..<n]"
  proof (rule nth_equalityI)
    show "length (fst (read_records rd n 0 (map junk [0..<n]) (drop off s))) =
        length (map (\<lambda>j. fst (rd (junk j, drop (off + j * k) s))) [0..<n])"
      using at by simp
  next
    fix j assume "j < length (fst (read_records rd n 0 (map junk [0..<n]) (drop off s)))"
    then have j: "j < n" using at by simp
    then have "fst (read_records rd n 0 (map junk [0..<n]) (drop off s)) ! j =
        fst (rd (map junk [0..<n] ! j, drop (off + (j - 0) * k) s))"
      using at by simp
    with j show "fst (read_records rd n 0 (map junk [0..<n]) (drop off s)) ! j =
        map (\<lambda>j. fst (rd (junk j, drop (off + j * k) s))) [0..<n] ! j"
      by simp
  qed
  moreover have "snd (read_records rd n 0 (map junk [0..<n]) (drop off s)) =
      drop (off + n * k) s"
    using at by simp
  ultimately show ?thesis by (simp add: prod_eq_iff)
qed

lemma map_read_sectors_at:
  assumes "sector_memory mem = Some junk"
  shows "map_read_sectors mem (m, drop off s) =
     (m\<lparr>sector_count := fread_at (sector_count m) off s,
        sector := Some (map (\<lambda>j. fst (sector_read (junk j, drop (off + 2 + j * 40) s)))
                         [0..<unat (fread_at (sector_count m) off s)])\<rparr>,
      drop (off + 2 + unat (fread_at (sector_count m) off s) * 40) s)"
proof -
  have rest: "\<And>x off. snd (sector_read (x, drop off s)) = drop (off + 40) s"
    by (simp add: sector_read_at)
  show ?thesis
    by (simp add: map_read_sectors_def fread_field_at malloc_def assms
          read_block_at [of sector_read s 40, OF rest])
qed

lemma map_read_walls_at:
  assumes "wall_memory mem = Some junk"
  shows "map_read_walls mem (m, drop off s) =
     (m\<lparr>wall_count := fread_at (wall_count m) off s,
        wall := Some (map (\<lambda>j. fst (wall_read (junk j, drop (off + 2 + j * 32) s)))
                       [0..<unat (fread_at (wall_count m) off s)])\<rparr>,
      drop (off + 2 + unat (fread_at (wall_count m) off s) * 32) s)"
proof -
  have rest: "\<And>x off. snd (wall_read (x, drop off s)) = drop (off + 32) s"
    by (simp add: wall_read_at)
  show ?thesis
    by (simp add: map_read_walls_def fread_field_at malloc_def assms
          read_block_at [of wall_read s 32, OF rest])
qed

lemma map_read_sprites_at:
  assumes "sprite_memory mem = Some junk"
  shows "map_read_sprites mem (m, drop off s) =
     (m\<lparr>sprite_count := fread_at (sprite_count m) off s,
        sprite := Some (map (\<lambda>j. fst (sprite_read (junk j, drop (off + 2 + j * 44) s)))
                         [0..<unat (fread_at (sprite_count m) off s)])\<rparr>,
      drop (off + 2 + unat (fread_at (sprite_count m) off s) * 44) s)"
proof -
  have rest: "\<And>x off. snd (sprite_read (x, drop off s)) = drop (off + 44) s"
    by (simp add: sprite_read_at)
  show ?thesis
    by (simp add: map_read_sprites_def fread_field_at malloc_def assms
          read_block_at [of sprite_read s 44, OF rest])
qed

lemma map_read_at:
  assumes "fs path = Some fp" and "file_close_ok fp"
    and "sector_memory mem = Some sj" and "wall_memory mem = Some wj"
    and "sprite_memory mem = Some pj"
  shows "map_read mem fs m path =
    ([], Returns
      (let s = file_unread fp;
           ns = fread_at (sector_count m) 20 s;
           walls_at = 22 + unat ns * 40;
           nw = fread_at (wall_count m) walls_at s;
           sprites_at = walls_at + 2 + unat nw * 32;
           np = fread_at (sprite_count m) sprites_at s
       in m\<lparr>version := fread_at (version m) 0 s,
            player :=
              (player m)
                \<lparr>player_position :=
                   (player_position (player m))
                     \<lparr>vec3_i32_x := fread_at (vec3_i32_x (player_position (player m))) 4 s,
                      vec3_i32_y := fread_at (vec3_i32_y (player_position (player m))) 8 s,
                      vec3_i32_z := fread_at (vec3_i32_z (player_position (player m))) 12 s\<rparr>,
                 player_angle := fread_at (player_angle (player m)) 16 s\<rparr>,
            sector_start := fread_at (sector_start m) 18 s,
            sector_count := ns,
            sector := Some (map (\<lambda>j. fst (sector_read (sj j, drop (22 + j * 40) s)))
                             [0..<unat ns]),
            wall_count := nw,
            wall := Some (map (\<lambda>j. fst (wall_read (wj j, drop (walls_at + 2 + j * 32) s)))
                           [0..<unat nw]),
            sprite_count := np,
            sprite := Some (map (\<lambda>j. fst (sprite_read (pj j, drop (sprites_at + 2 + j * 44) s)))
                             [0..<unat np])\<rparr>))"
proof -
  let ?s = "file_unread fp"
  have "in_order [map_read_header, map_read_sectors mem, map_read_walls mem,
                  map_read_sprites mem] (m, ?s) =
        map_read_sprites mem (map_read_walls mem (map_read_sectors mem (map_read_header (m, ?s))))"
    by (simp add: in_order_Cons in_order_Nil)
  then show ?thesis
    unfolding map_read_opened [where fs = fs and path = path, OF assms(1,2)] Let_def
    by (simp add: map_read_header_at map_read_sectors_at [OF assms(3)]
          map_read_walls_at [OF assms(4)] map_read_sprites_at [OF assms(5)] add.commute
          add.left_commute)
qed

lemma fread_at_object:
  assumes "8 dvd LENGTH('a)"
  shows "le_bytes (LENGTH('a) div 8) (fread_at (w :: 'a::len word) off s) =
     take (LENGTH('a) div 8) (drop off s)
       @ drop (length s - off) (le_bytes (LENGTH('a) div 8) w)"
proof -
  let ?k = "LENGTH('a) div 8"
  let ?obj = "take ?k (drop off s) @ drop (length s - off) (le_bytes ?k w)"
  have "length ?obj = ?k" by (simp add: length_le_bytes)
  moreover have "8 * ?k \<le> LENGTH('a)" using assms by simp
  ultimately have "le_bytes ?k (of_le_bytes ?obj :: 'a word) = ?obj"
    by (rule le_bytes_of_le_bytes)
  moreover have "fread_at w off s = of_le_bytes ?obj"
    by (simp add: fread_at_def fread_word_def fread_def length_le_bytes)
  ultimately show ?thesis by simp
qed

lemma fread_at_end:
  "8 dvd LENGTH('a) \<Longrightarrow> length s \<le> off \<Longrightarrow> fread_at (w :: 'a::len word) off s = w"
  by (simp add: fread_at_def fread_word_eof)

section \<open>Properties of the main loop\<close>

lemma map_print_decoded:
  assumes "decoded m"
  shows "snd (map_print m path) = Returns ()"
proof -
  obtain out r where sp: "is_single_player m = (out, Inr r)"
    using is_single_player_decoded [OF assms] by (cases "first_message (the_array (sprite m))") auto
  obtain c b where co: "is_coop m [] = Inr (c, b)"
    using is_coop_decoded [OF assms, of "[]"] by (auto split: if_splits)
  obtain d b' where du: "is_dukematch m b = Inr (d, b')"
    using is_dukematch_decoded [OF assms, of b] by (auto split: if_splits)
  show ?thesis
    by (simp add: map_print_def and_then_def of_fault_def sp co du)
qed

lemma main_file_unopenable:
  "fs path = None \<Longrightarrow> main_file mem fs path = ([Stderr_perror ''fopen''], Exits error_fopen)"
  by (simp add: main_file_def map_read_def safe_fopen_def and_then_def)

lemma main_file_opened:
  assumes "fs path = Some fp" and "file_close_ok fp"
    and "sector_memory mem \<noteq> None" and "wall_memory mem \<noteq> None"
    and "sprite_memory mem \<noteq> None"
  shows "snd (main_file mem fs path) = Returns ()"
proof -
  let ?m = "fst (in_order [map_read_header, map_read_sectors mem, map_read_walls mem,
                           map_read_sprites mem] (zero_map, file_unread fp))"
  have "decoded ?m" using assms(3-5) by (rule map_read_arrays_decoded)
  then have "snd (map_print ?m path) = Returns ()" by (rule map_print_decoded)
  then show ?thesis
    using map_read_opened [where fs = fs and path = path, OF assms(1,2), of mem zero_map]
    by (simp add: main_file_def and_then_def split: prod.splits)
qed

lemma main_files_step:
  assumes "i < length argv" and "snd (main_file (mem i) fs (argv ! i)) = Returns ()"
  shows "main_files mem fs argv i =
     (fst (main_file (mem i) fs (argv ! i)) @ fst (main_files mem fs argv (i + 1)),
      snd (main_files mem fs argv (i + 1)))"
proof -
  obtain out where f: "main_file (mem i) fs (argv ! i) = (out, Returns ())"
    using assms(2) by (cases "main_file (mem i) fs (argv ! i)") simp
  show ?thesis
    using assms(1) by (subst main_files.simps) (simp add: f and_then_def split: prod.splits)
qed

lemma main_files_stop:
  "i < length argv \<Longrightarrow> fs (argv ! i) = None \<Longrightarrow>
   main_files mem fs argv i = ([Stderr_perror ''fopen''], Exits error_fopen)"
  by (subst main_files.simps) (simp add: main_file_unopenable and_then_def)

lemma main_files_end:
  "length argv \<le> i \<Longrightarrow> main_files mem fs argv i = ([], Returns EXIT_SUCCESS)"
  by (subst main_files.simps) simp

lemma main_files_upto:
  assumes "i \<le> k" and "k \<le> length argv"
    and "\<forall>j. i \<le> j \<and> j < k \<longrightarrow> snd (main_file (mem j) fs (argv ! j)) = Returns ()"
  shows "main_files mem fs argv i =
     (concat (map (\<lambda>j. fst (main_file (mem j) fs (argv ! j))) [i..<k])
        @ fst (main_files mem fs argv k),
      snd (main_files mem fs argv k))"
  using assms
proof (induction "k - i" arbitrary: i)
  case 0
  then have "i = k" by simp
  then show ?case by simp
next
  case (Suc d)
  then have lt: "i < k" and d: "d = k - (i + 1)" and le: "i + 1 \<le> k" by simp_all
  have good: "snd (main_file (mem i) fs (argv ! i)) = Returns ()"
    using Suc.prems(3) lt by simp
  have rest: "\<forall>j. i + 1 \<le> j \<and> j < k \<longrightarrow> snd (main_file (mem j) fs (argv ! j)) = Returns ()"
    using Suc.prems(3) by simp
  have ih: "main_files mem fs argv (i + 1) =
     (concat (map (\<lambda>j. fst (main_file (mem j) fs (argv ! j))) [i + 1..<k])
        @ fst (main_files mem fs argv k),
      snd (main_files mem fs argv k))"
    using Suc.hyps(1) [OF d le Suc.prems(2) rest] .
  have "i < length argv" using lt Suc.prems(2) by simp
  from main_files_step [where mem = mem and i = i, OF this good] ih lt show ?case
    by (simp add: upt_conv_Cons)
qed

lemma sector_dump_simps:
  "sector_dump (Stdout_sector s)"
  "\<not> sector_dump (Stdout_filename path)"
  "\<not> sector_dump (Stdout_version v)"
  "\<not> sector_dump (Stdout_single_player t)"
  "\<not> sector_dump (Stdout_cooperative t)"
  "\<not> sector_dump (Stdout_dukematch t)"
  "\<not> sector_dump Stdout_atomic"
  "\<not> sector_dump Stdout_new_art"
  "\<not> sector_dump (Stdout_vanilla t i j k)"
  "\<not> sector_dump (Stderr_perror t)"
  "\<not> sector_dump (Stderr_usage t u)"
  by (simp_all add: sector_dump_def)

lemma map_print_report:
  assumes "decoded m"
  shows "filter (\<lambda>e. \<not> sector_dump e) (fst (map_print m path)) =
     [Stdout_filename path, Stdout_version (sint (version m)),
      Stdout_single_player (projr (snd (is_single_player m))),
      Stdout_cooperative (fst (projr (is_coop m []))),
      Stdout_dukematch (fst (projr (is_dukematch m []))),
      Stdout_atomic, Stdout_new_art,
      Stdout_vanilla (is_vanilla_compatible m)
        (uint (sector_count m)) (uint (wall_count m)) (uint (sprite_count m))]"
proof -
  obtain out r where sp: "is_single_player m = (out, Inr r)"
    and out: "out = [] \<or> out = map Stdout_sector (the_array (sector m))"
    using is_single_player_decoded [OF assms] by (cases "first_message (the_array (sprite m))") auto
  have dump: "filter (\<lambda>e. \<not> sector_dump e) out = []"
  proof -
    have "\<forall>e \<in> set out. sector_dump e"
      using out by (auto simp: sector_dump_def)
    then show ?thesis by (simp add: filter_empty_conv)
  qed
  obtain c b where co: "is_coop m [] = Inr (c, b)"
    using is_coop_decoded [OF assms, of "[]"] by (auto split: if_splits)
  obtain d b' where du: "is_dukematch m b = Inr (d, b')"
    using is_dukematch_decoded [OF assms, of b] by (auto split: if_splits)
  have "fst (projr (is_dukematch m [])) = fst (projr (is_dukematch m b))"
    by (simp add: is_dukematch_decoded [OF assms])
  then have d: "fst (projr (is_dukematch m [])) = d" by (simp add: du)
  show ?thesis
    by (simp add: map_print_def and_then_def of_fault_def sp co du d dump sector_dump_simps)
qed

section \<open>Engine compatibility\<close>

lemma uint_le_unat:
  "(uint (w::16 word) \<le> 1024) = (unat w \<le> 1024)"
  "(uint (w::16 word) \<le> 8192) = (unat w \<le> 8192)"
  "(uint (w::16 word) \<le> 4096) = (unat w \<le> 4096)"
  unfolding uint_nat by linarith+

text \<open>
  C1. The verdict of \<open>is_vanilla_compatible\<close> is "Yes" exactly when the map has at most
  1024 sectors, at most 8192 walls and at most 4096 sprites, and "No" otherwise. With
  all three counts on their limit the verdict is "Yes"; with any one count one above its
  limit the verdict is "No", whatever the other two counts are.
\<close>

theorem vanilla_compatible_limits:
  "((is_vanilla_compatible m = ''Yes'') =
      (unat (sector_count m) \<le> 1024 \<and> unat (wall_count m) \<le> 8192
         \<and> unat (sprite_count m) \<le> 4096))
   \<and> ((is_vanilla_compatible m = ''No'') = (is_vanilla_compatible m \<noteq> ''Yes''))
   \<and> is_vanilla_compatible
        (m\<lparr>sector_count := 1024, wall_count := 8192, sprite_count := 4096\<rparr>) = ''Yes''
   \<and> is_vanilla_compatible (m\<lparr>sector_count := 1025\<rparr>) = ''No''
   \<and> is_vanilla_compatible (m\<lparr>wall_count := 8193\<rparr>) = ''No''
   \<and> is_vanilla_compatible (m\<lparr>sprite_count := 4097\<rparr>) = ''No''"
proof -
  have verdict: "(is_vanilla_compatible m = ''Yes'') =
      (unat (sector_count m) \<le> 1024 \<and> unat (wall_count m) \<le> 8192
         \<and> unat (sprite_count m) \<le> 4096)"
    by (simp add: is_vanilla_compatible_def uint_le_unat)
  have two: "(is_vanilla_compatible m = ''No'') = (is_vanilla_compatible m \<noteq> ''Yes'')"
    by (simp add: is_vanilla_compatible_def)
  have on_limit: "is_vanilla_compatible
        (m\<lparr>sector_count := 1024, wall_count := 8192, sprite_count := 4096\<rparr>) = ''Yes''"
    by (simp add: is_vanilla_compatible_def)
  have above: "is_vanilla_compatible (m\<lparr>sector_count := 1025\<rparr>) = ''No''"
    "is_vanilla_compatible (m\<lparr>wall_count := 8193\<rparr>) = ''No''"
    "is_vanilla_compatible (m\<lparr>sprite_count := 4097\<rparr>) = ''No''"
    by (simp_all add: is_vanilla_compatible_def)
  from verdict two on_limit above show ?thesis by blast
qed

section \<open>Single-player detection\<close>

text \<open>
  C2. On a decoded map, \<open>is_single_player\<close> answers something other than "No" exactly
  when some sprite has picture 142 and either a lotag of 32767, 65534 or 65535 or a
  palette of 14. The answer is the text of the first such sprite in the array: one text
  for each of the three lotag values and one for the palette, and the five texts differ
  from each other. When no sprite meets the condition, also when sprites have picture
  142, the answer is "No".
\<close>

theorem single_player_presence:
  assumes "decoded m"
  shows
    "((snd (is_single_player m) \<noteq> Inr ''No'') =
        (\<exists>s \<in> set (the_array (sprite m)).
           sint (sprite_pic s) = 142
           \<and> (sprite_lotag_value s \<in> {32767, 65534, 65535} \<or> uint (sprite_pal s) = 14)))
     \<and> snd (is_single_player m) =
         Inr (case find (\<lambda>s. sint (sprite_pic s) = 142
                          \<and> (sprite_lotag_value s \<in> {32767, 65534, 65535}
                              \<or> uint (sprite_pal s) = 14))
                     (the_array (sprite m)) of
                None \<Rightarrow> ''No''
              | Some s \<Rightarrow>
                  if sprite_lotag_value s = 32767 then yes_unknown
                  else if sprite_lotag_value s = 65534 then yes_fry
                  else if sprite_lotag_value s = 65535 then yes_nuke_button
                  else yes_secret_exit)
     \<and> distinct [''No'', yes_unknown, yes_fry, yes_nuke_button, yes_secret_exit]"
proof -
  let ?P = "\<lambda>s. sint (sprite_pic s) = 142
               \<and> (sprite_lotag_value s \<in> {32767, 65534, 65535} \<or> uint (sprite_pal s) = 14)"
  have P: "(\<lambda>s. single_player_check s \<noteq> None) = ?P"
    by (rule ext) (rule single_player_check_Some)
  have result: "snd (is_single_player m) =
         Inr (case find ?P (the_array (sprite m)) of
                None \<Rightarrow> ''No''
              | Some s \<Rightarrow>
                  if sprite_lotag_value s = 32767 then yes_unknown
                  else if sprite_lotag_value s = 65534 then yes_fry
                  else if sprite_lotag_value s = 65535 then yes_nuke_button
                  else yes_secret_exit)"
    using single_player_result [OF assms] unfolding P .
  have presence: "(snd (is_single_player m) \<noteq> Inr ''No'') =
        (\<exists>s \<in> set (the_array (sprite m)). ?P s)"
  proof (cases "find ?P (the_array (sprite m))")
    case None
    have "snd (is_single_player m) = Inr ''No''"
      unfolding result None by simp
    moreover have "\<not> (\<exists>s \<in> set (the_array (sprite m)). ?P s)"
      using None by (simp add: find_None_iff)
    ultimately show ?thesis by simp
  next
    case (Some s)
    then have "s \<in> set (the_array (sprite m))" and "?P s"
      by (auto simp: find_Some_iff)
    then have "\<exists>s \<in> set (the_array (sprite m)). ?P s" by blast
    moreover have "snd (is_single_player m) \<noteq> Inr ''No''"
      unfolding result Some using single_player_texts_distinct by auto
    ultimately show ?thesis by simp
  qed
  from presence result single_player_texts_distinct show ?thesis by blast
qed

theorem single_player_presence_witness:
  "decoded (map_of_sprites [nuke_button 5 0, nuke_button 65535 14, nuke_button 32767 0])
   \<and> snd (is_single_player
            (map_of_sprites [nuke_button 5 0, nuke_button 65535 14, nuke_button 32767 0])) =
       Inr yes_nuke_button"
proof -
  let ?m = "map_of_sprites [nuke_button 5 0, nuke_button 65535 14, nuke_button 32767 0]"
  have d: "decoded ?m" by (rule decoded_map_of_sprites) simp
  have "snd (is_single_player ?m) = Inr yes_nuke_button"
    using single_player_presence [OF d]
    by (simp add: map_of_sprites_def the_array_def nuke_button_def zero_sprite_def
          sprite_lotag_value_def)
  with d show ?thesis by simp
qed

section \<open>Cooperative and DukeMatch player starts\<close>

text \<open>
  C3. On a decoded map, \<open>is_coop\<close> counts the sprites with picture 1405 and lotag 1,
  and \<open>is_dukematch\<close> those with picture 1405 and lotag 0. With a count of zero the
  answer is "No" and the buffer is left as it was; with a count \<open>n\<close> above zero the
  answer is "Yes (\<open>n + 1\<close> players)", written to the buffer. The answer is "No" exactly
  when the count is zero.
\<close>

theorem player_start_capacity:
  assumes "decoded m"
  shows
    "(let n = length (filter (\<lambda>s. sint (sprite_pic s) = 1405 \<and> sprite_lotag_value s = 1)
                       (the_array (sprite m)));
          yes = ''Yes ('' @ printf_d (int n + 1) @ '' players)''
      in is_coop m buffer = (if 0 < n then Inr (yes, yes) else Inr (''No'', buffer))
         \<and> ((is_coop m buffer = Inr (''No'', buffer)) = (n = 0)))
     \<and> (let n = length (filter (\<lambda>s. sint (sprite_pic s) = 1405 \<and> sprite_lotag_value s = 0)
                          (the_array (sprite m)));
             yes = ''Yes ('' @ printf_d (int n + 1) @ '' players)''
         in is_dukematch m buffer = (if 0 < n then Inr (yes, yes) else Inr (''No'', buffer))
            \<and> ((is_dukematch m buffer = Inr (''No'', buffer)) = (n = 0)))"
proof -
  have coop: "is_coop m buffer =
      (if 0 < length (filter (\<lambda>s. sint (sprite_pic s) = 1405 \<and> sprite_lotag_value s = 1)
                     (the_array (sprite m)))
       then Inr (''Yes ('' @ printf_d (int (length (filter (\<lambda>s. sint (sprite_pic s) = 1405 \<and> sprite_lotag_value s = 1)
                     (the_array (sprite m)))) + 1) @ '' players)'',
                 ''Yes ('' @ printf_d (int (length (filter (\<lambda>s. sint (sprite_pic s) = 1405 \<and> sprite_lotag_value s = 1)
                     (the_array (sprite m)))) + 1) @ '' players)'')
       else Inr (''No'', buffer))"
    using assms by (rule is_coop_decoded)
  have dukematch: "is_dukematch m buffer =
      (if 0 < length (filter (\<lambda>s. sint (sprite_pic s) = 1405 \<and> sprite_lotag_value s = 0)
                     (the_array (sprite m)))
       then Inr (''Yes ('' @ printf_d (int (length (filter (\<lambda>s. sint (sprite_pic s) = 1405 \<and> sprite_lotag_value s = 0)
                     (the_array (sprite m)))) + 1) @ '' players)'',
                 ''Yes ('' @ printf_d (int (length (filter (\<lambda>s. sint (sprite_pic s) = 1405 \<and> sprite_lotag_value s = 0)
                     (the_array (sprite m)))) + 1) @ '' players)'')
       else Inr (''No'', buffer))"
    using assms by (rule is_dukematch_decoded)
  show ?thesis
    unfolding Let_def coop dukematch by simp
qed

theorem player_start_capacity_witness:
  "decoded (map_of_sprites [player_start 1, player_start 0, player_start 1, nuke_button 1 0])
   \<and> is_coop (map_of_sprites [player_start 1, player_start 0, player_start 1, nuke_button 1 0]) ''''
       = Inr (''Yes (3 players)'', ''Yes (3 players)'')
   \<and> is_dukematch (map_of_sprites [player_start 1, player_start 0, player_start 1, nuke_button 1 0]) ''''
       = Inr (''Yes (2 players)'', ''Yes (2 players)'')
   \<and> decoded (map_of_sprites [player_start 7, nuke_button 0 0])
   \<and> is_coop (map_of_sprites [player_start 7, nuke_button 0 0]) '''' = Inr (''No'', '''')
   \<and> is_dukematch (map_of_sprites [player_start 7, nuke_button 0 0]) '''' = Inr (''No'', '''')"
proof -
  let ?m = "map_of_sprites [player_start 1, player_start 0, player_start 1, nuke_button 1 0]"
  let ?z = "map_of_sprites [player_start 7, nuke_button 0 0]"
  have d: "decoded ?m" by (rule decoded_map_of_sprites) simp
  have z: "decoded ?z" by (rule decoded_map_of_sprites) simp
  have three: "printf_d 3 = ''3''" and two: "printf_d 2 = ''2''"
    by (simp_all add: printf_d_def dec_nat.simps digit_char_def)
  have "is_coop ?m '''' = Inr (''Yes (3 players)'', ''Yes (3 players)'')"
    and "is_dukematch ?m '''' = Inr (''Yes (2 players)'', ''Yes (2 players)'')"
    using player_start_capacity [OF d, of "''''"]
    by (simp_all add: Let_def map_of_sprites_def the_array_def player_start_def nuke_button_def
          zero_sprite_def sprite_lotag_value_def three two)
  moreover have "is_coop ?z '''' = Inr (''No'', '''')"
    and "is_dukematch ?z '''' = Inr (''No'', '''')"
    using player_start_capacity [OF z, of "''''"]
    by (simp_all add: Let_def map_of_sprites_def the_array_def player_start_def nuke_button_def
          zero_sprite_def sprite_lotag_value_def)
  ultimately show ?thesis using d z by simp
qed

section \<open>Index fields and the report\<close>

theorem broken_map_is_reported_without_violation:
  "map_print broken_map ''broken.map'' =
     ([Stdout_filename ''broken.map'', Stdout_version 0, Stdout_single_player yes_nuke_button,
       Stdout_cooperative ''No'', Stdout_dukematch ''No'', Stdout_atomic, Stdout_new_art,
       Stdout_vanilla ''Yes'' 1 0 1],
      Returns ())
   \<and> sint (sector_wall_ptr (the_array (sector broken_map) ! 0)) = - 1
   \<and> sint (sector_wall_count (the_array (sector broken_map) ! 0)) = 5
   \<and> uint (wall_count broken_map) = 0
   \<and> sint (sprite_sector (the_array (sprite broken_map) ! 0)) = 999
   \<and> uint (sector_count broken_map) = 1
   \<and> sint (sprite_owner (the_array (sprite broken_map) ! 0)) = 5000
   \<and> uint (sprite_count broken_map) = 1
   \<and> sint (sector_start broken_map) = 77"
proof -
  have d: "decoded broken_map"
    by (simp add: broken_map_def decoded_def zero_map_def array_ok_def)
  have single: "is_single_player broken_map = ([], Inr yes_nuke_button)"
    unfolding is_single_player_decoded [OF d]
    by (simp add: first_message_Cons single_player_check_def
          broken_map_def the_array_def nuke_button_def zero_sprite_def sprite_lotag_value_def)
  have coop: "is_coop broken_map [] = Inr (''No'', [])"
    unfolding is_coop_decoded [OF d]
    by (simp add: broken_map_def the_array_def nuke_button_def zero_sprite_def)
  have dukematch: "is_dukematch broken_map [] = Inr (''No'', [])"
    unfolding is_dukematch_decoded [OF d]
    by (simp add: broken_map_def the_array_def nuke_button_def zero_sprite_def)
  have fields: "sint (version broken_map) = 0" "uint (sector_count broken_map) = 1"
    "uint (wall_count broken_map) = 0" "uint (sprite_count broken_map) = 1"
    "is_vanilla_compatible broken_map = ''Yes''"
    by (simp_all add: is_vanilla_compatible_def broken_map_def zero_map_def)
  have report: "map_print broken_map ''broken.map'' =
     ([Stdout_filename ''broken.map'', Stdout_version 0, Stdout_single_player yes_nuke_button,
       Stdout_cooperative ''No'', Stdout_dukematch ''No'', Stdout_atomic, Stdout_new_art,
       Stdout_vanilla ''Yes'' 1 0 1],
      Returns ())"
    by (simp add: map_print_def and_then_def of_fault_def single coop dukematch fields)
  have indices: "sint (sector_wall_ptr (the_array (sector broken_map) ! 0)) = - 1"
    "sint (sector_wall_count (the_array (sector broken_map) ! 0)) = 5"
    "sint (sprite_sector (the_array (sprite broken_map) ! 0)) = 999"
    "sint (sprite_owner (the_array (sprite broken_map) ! 0)) = 5000"
    "sint (sector_start broken_map) = 77"
    by (simp_all add: broken_map_def the_array_def zero_map_def)
  from report indices fields show ?thesis by simp
qed

text \<open>
  C4, as the program has it. The program has no structural validator and reports no
  violation: no index field is ever compared with the length of an array. For every
  decoded map, \<open>map_print\<close> returns, and its report, the lines of
  \<open>sector_print\<close> apart, is the file name, the version, the three answers on
  the modes of play and the verdict with the three counts. The report is the same when the
  index fields of the map (the start sector, the wall range of each sector, the links of
  each wall, the sector and owner of each sprite) hold any other values, within the arrays
  or not.
\<close>

theorem report_ignores_index_fields:
  assumes "decoded m"
  shows
    "snd (map_print m path) = Returns ()
     \<and> snd (map_print (with_index_fields start p c r l n a b m) path) = Returns ()
     \<and> filter (\<lambda>e. \<not> sector_dump e) (fst (map_print m path)) =
         [Stdout_filename path, Stdout_version (sint (version m)),
          Stdout_single_player (projr (snd (is_single_player m))),
          Stdout_cooperative (fst (projr (is_coop m []))),
          Stdout_dukematch (fst (projr (is_dukematch m []))),
          Stdout_atomic, Stdout_new_art,
          Stdout_vanilla (is_vanilla_compatible m)
            (uint (sector_count m)) (uint (wall_count m)) (uint (sprite_count m))]
     \<and> filter (\<lambda>e. \<not> sector_dump e)
           (fst (map_print (with_index_fields start p c r l n a b m) path)) =
         filter (\<lambda>e. \<not> sector_dump e) (fst (map_print m path))"
proof -
  let ?m' = "with_index_fields start p c r l n a b m"
  have d': "decoded ?m'"
    using assms by (rule classification_ignores_index_fields)
  have same: "version ?m' = version m" "sector_count ?m' = sector_count m"
    "wall_count ?m' = wall_count m" "sprite_count ?m' = sprite_count m"
    by (simp_all add: with_index_fields_def)
  have "filter (\<lambda>e. \<not> sector_dump e) (fst (map_print ?m' path)) =
         filter (\<lambda>e. \<not> sector_dump e) (fst (map_print m path))"
    unfolding map_print_report [OF assms] map_print_report [OF d']
    by (simp add: classification_ignores_index_fields [OF assms] same)
  with map_print_decoded [OF assms] map_print_decoded [OF d'] map_print_report [OF assms]
  show ?thesis by simp
qed

theorem report_ignores_index_fields_witness:
  "decoded broken_map
   \<and> filter (\<lambda>e. \<not> sector_dump e)
       (fst (map_print
              (with_index_fields 0 (\<lambda>_. 0) (\<lambda>_. 0) (\<lambda>_. - 1) (\<lambda>_. - 1) (\<lambda>_. - 1)
                 (\<lambda>_. 0) (\<lambda>_. 0) broken_map)
              ''broken.map'')) =
     filter (\<lambda>e. \<not> sector_dump e) (fst (map_print broken_map ''broken.map''))
   \<and> snd (map_print broken_map ''broken.map'') = Returns ()"
proof -
  have d: "decoded broken_map"
    by (simp add: broken_map_def decoded_def zero_map_def array_ok_def)
  from report_ignores_index_fields [OF d] d show ?thesis by simp
qed

section \<open>Streams that end early\<close>

lemma truncated_first_sector: "sector_read (junk_sector, [5, 0, 9]) = (junk_sector\<lparr>sector_wall_ptr := 5, sector_wall_count := 0x7709\<rparr>, [])"
  by (simp add: sector_read_def in_order_Cons in_order_Nil fread_field_bytes fread_word_full
      fread_word_short fread_word_eof junk_sector_def zero_sector_def)

lemma truncated_header: "map_read_header (zero_map, truncated_bytes) = (zero_map\<lparr>version := 7\<rparr>, [2, 0, 5, 0, 9])"
  by (simp add: map_read_header_def in_order_Cons in_order_Nil fread_field_bytes fread_word_full
      truncated_bytes_def zero_map_def)

lemma truncated_sectors:
  "map_read_sectors junk_memory (zero_map\<lparr>version := 7\<rparr>, [2, 0, 5, 0, 9]) =
     (zero_map\<lparr>version := 7, sector_count := 2,
        sector := Some [junk_sector\<lparr>sector_wall_ptr := 5, sector_wall_count := 0x7709\<rparr>,
                        junk_sector]\<rparr>, [])"
proof -
  have count: "fread_field sector_count sector_count_update (zero_map\<lparr>version := 7\<rparr>, [2, 0, 5, 0, 9])
      = (zero_map\<lparr>version := 7, sector_count := 2\<rparr>, [5, 0, 9])"
    by (simp add: fread_field_bytes fread_word_full zero_map_def)
  have block: "malloc (sector_memory junk_memory) 2 = Some [junk_sector, junk_sector]"
    by (simp add: malloc_def junk_memory_def upt_rec numeral_2_eq_2)
  have loop: "read_records sector_read 2 0 [junk_sector, junk_sector] [5, 0, 9] =
      ([junk_sector\<lparr>sector_wall_ptr := 5, sector_wall_count := 0x7709\<rparr>, junk_sector], [])"
    by (simp add: read_records.simps [of _ 2] truncated_first_sector sector_read_eof)
  show ?thesis
    unfolding map_read_sectors_def count
    by (simp add: block loop)
qed


lemma walls_at_end:
  "map_read_walls junk_memory (m\<lparr>wall_count := 0\<rparr>, []) =
     (m\<lparr>wall_count := 0, wall := Some []\<rparr>, [])"
  by (simp add: map_read_walls_def fread_field_eof malloc_def junk_memory_def
        read_records_eof wall_read_eof)

lemma sprites_at_end:
  "map_read_sprites junk_memory (m\<lparr>sprite_count := 0\<rparr>, []) =
     (m\<lparr>sprite_count := 0, sprite := Some []\<rparr>, [])"
  by (simp add: map_read_sprites_def fread_field_eof malloc_def junk_memory_def
        read_records_eof sprite_read_eof)


theorem truncated_map_is_returned:
  "map_read junk_memory (one_file ''e1l1.map'' truncated_bytes) zero_map ''e1l1.map'' =
     ([], Returns
        (zero_map
          \<lparr>version := 7,
           sector_count := 2,
           sector := Some [junk_sector\<lparr>sector_wall_ptr := 5, sector_wall_count := 0x7709\<rparr>,
                           junk_sector],
           wall := Some [],
           sprite := Some []\<rparr>))"
proof -
  have wc: "zero_map = zero_map\<lparr>wall_count := 0\<rparr>" and sc: "zero_map = zero_map\<lparr>sprite_count := 0\<rparr>"
    by (simp_all add: zero_map_def)
  have "in_order [map_read_header, map_read_sectors junk_memory, map_read_walls junk_memory,
                  map_read_sprites junk_memory] (zero_map, truncated_bytes) =
        (zero_map
          \<lparr>version := 7,
           sector_count := 2,
           sector := Some [junk_sector\<lparr>sector_wall_ptr := 5, sector_wall_count := 0x7709\<rparr>,
                           junk_sector],
           wall := Some [],
           sprite := Some []\<rparr>, [])"
    unfolding in_order_Cons in_order_Nil truncated_header truncated_sectors
    using walls_at_end [of "zero_map
          \<lparr>version := 7,
           sector_count := 2,
           sector := Some [junk_sector\<lparr>sector_wall_ptr := 5, sector_wall_count := 0x7709\<rparr>,
                           junk_sector]\<rparr>"]
      sprites_at_end [of "zero_map
          \<lparr>version := 7,
           sector_count := 2,
           sector := Some [junk_sector\<lparr>sector_wall_ptr := 5, sector_wall_count := 0x7709\<rparr>,
                           junk_sector], wall := Some []\<rparr>"]
    by (simp add: zero_map_def)
  then show ?thesis
    by (simp add: map_read_def safe_fopen_def safe_fclose_def and_then_def one_file_def)
qed

text \<open>
  C5, as the program has it. \<open>map_read\<close> does not detect a stream that ends early. For
  every stream of bytes, whatever its length, when the file opens and closes \<open>map_read\<close>
  writes nothing and returns a map, and when the three allocations succeed each array of
  that map has as many elements as its count says. With the three allocations succeeding
  the returned map is this one: the fields of the header, the three counts and the
  fields of every record are each the result of one \<open>fread\<close> at a fixed offset of the
  stream (the header from 0, the count of sectors at 20, sector \<open>j\<close> at \<open>22 + 40 j\<close>,
  then the count of walls, walls of 32 bytes, the count of sprites, sprites of 44 bytes),
  applied to what the field held before: the field of the map passed in, or of the
  element as \<open>malloc\<close> returned it. After such an \<open>fread\<close> the bytes of the object are
  the bytes that the stream still has at the offset, followed by the bytes the object
  had before where the stream has ended. Hence a field that starts at or after the end
  of the stream keeps its value, and an array element that starts at or after the end
  is exactly what \<open>malloc\<close> returned.
\<close>

theorem map_read_does_not_detect_truncation:
  assumes "fs path = Some fp" and "file_close_ok fp"
  shows
    "(\<exists>m'. map_read mem fs m path = ([], Returns m')
           \<and> (sector_memory mem \<noteq> None \<and> wall_memory mem \<noteq> None
                \<and> sprite_memory mem \<noteq> None \<longrightarrow> decoded m'))
     \<and> (sector_memory mem = Some sj \<and> wall_memory mem = Some wj
          \<and> sprite_memory mem = Some pj \<longrightarrow>
          map_read mem fs m path =
            ([], Returns
              (let bytes = file_unread fp;
                   ns = fread_at (sector_count m) 20 bytes;
                   walls_at = 22 + unat ns * 40;
                   nw = fread_at (wall_count m) walls_at bytes;
                   sprites_at = walls_at + 2 + unat nw * 32;
                   np = fread_at (sprite_count m) sprites_at bytes
               in m\<lparr>version := fread_at (version m) 0 bytes,
                    player :=
                      (player m)
                        \<lparr>player_position :=
                           (player_position (player m))
                             \<lparr>vec3_i32_x :=
                                fread_at (vec3_i32_x (player_position (player m))) 4 bytes,
                              vec3_i32_y :=
                                fread_at (vec3_i32_y (player_position (player m))) 8 bytes,
                              vec3_i32_z :=
                                fread_at (vec3_i32_z (player_position (player m))) 12 bytes\<rparr>,
                         player_angle := fread_at (player_angle (player m)) 16 bytes\<rparr>,
                    sector_start := fread_at (sector_start m) 18 bytes,
                    sector_count := ns,
                    sector :=
                      Some (map (\<lambda>j. fst (sector_read (sj j, drop (22 + j * 40) bytes)))
                              [0..<unat ns]),
                    wall_count := nw,
                    wall :=
                      Some (map (\<lambda>j. fst (wall_read (wj j, drop (walls_at + 2 + j * 32) bytes)))
                              [0..<unat nw]),
                    sprite_count := np,
                    sprite :=
                      Some (map (\<lambda>j. fst (sprite_read
                                          (pj j, drop (sprites_at + 2 + j * 44) bytes)))
                              [0..<unat np])\<rparr>)))
     \<and> fst (sector_read (sec, drop off s)) =
         sec\<lparr>sector_wall_ptr := fread_at (sector_wall_ptr sec) off s,
            sector_wall_count := fread_at (sector_wall_count sec) (off + 2) s,
            sector_ceilling :=
              (sector_ceilling sec)
                \<lparr>cf_height := fread_at (cf_height (sector_ceilling sec)) (off + 4) s,
                 cf_stat := fread_at (cf_stat (sector_ceilling sec)) (off + 12) s,
                 cf_pic := fread_at (cf_pic (sector_ceilling sec)) (off + 16) s,
                 cf_slope := fread_at (cf_slope (sector_ceilling sec)) (off + 18) s,
                 cf_shade := fread_at (cf_shade (sector_ceilling sec)) (off + 20) s,
                 cf_palette := fread_at (cf_palette (sector_ceilling sec)) (off + 21) s,
                 cf_panning :=
                   (cf_panning (sector_ceilling sec))
                     \<lparr>vec2_u8_x :=
                        fread_at (vec2_u8_x (cf_panning (sector_ceilling sec))) (off + 22) s,
                      vec2_u8_y :=
                        fread_at (vec2_u8_y (cf_panning (sector_ceilling sec))) (off + 23) s\<rparr>\<rparr>,
            sector_floor :=
              (sector_floor sec)
                \<lparr>cf_height := fread_at (cf_height (sector_floor sec)) (off + 8) s,
                 cf_stat := fread_at (cf_stat (sector_floor sec)) (off + 14) s,
                 cf_pic := fread_at (cf_pic (sector_floor sec)) (off + 24) s,
                 cf_slope := fread_at (cf_slope (sector_floor sec)) (off + 26) s,
                 cf_shade := fread_at (cf_shade (sector_floor sec)) (off + 28) s,
                 cf_palette := fread_at (cf_palette (sector_floor sec)) (off + 29) s,
                 cf_panning :=
                   (cf_panning (sector_floor sec))
                     \<lparr>vec2_u8_x :=
                        fread_at (vec2_u8_x (cf_panning (sector_floor sec))) (off + 30) s,
                      vec2_u8_y :=
                        fread_at (vec2_u8_y (cf_panning (sector_floor sec))) (off + 31) s\<rparr>\<rparr>,
            sector_visibility := fread_at (sector_visibility sec) (off + 32) s,
            sector_filler := fread_at (sector_filler sec) (off + 33) s,
            sector_lotag := fread_at (sector_lotag sec) (off + 34) s,
            sector_hitag := fread_at (sector_hitag sec) (off + 36) s,
            sector_extra := fread_at (sector_extra sec) (off + 38) s\<rparr>
     \<and> fst (wall_read (wal, drop off s)) =
         wal\<lparr>wall_position :=
              (wall_position wal)
                \<lparr>vec2_i32_x := fread_at (vec2_i32_x (wall_position wal)) off s,
                 vec2_i32_y := fread_at (vec2_i32_y (wall_position wal)) (off + 4) s\<rparr>,
            wall_wall_next_right := fread_at (wall_wall_next_right wal) (off + 8) s,
            wall_wall_next_left := fread_at (wall_wall_next_left wal) (off + 10) s,
            wall_sector_next := fread_at (wall_sector_next wal) (off + 12) s,
            wall_stat := fread_at (wall_stat wal) (off + 14) s,
            wall_pic := fread_at (wall_pic wal) (off + 16) s,
            wall_pic_over := fread_at (wall_pic_over wal) (off + 18) s,
            wall_shade := fread_at (wall_shade wal) (off + 20) s,
            wall_pal := fread_at (wall_pal wal) (off + 21) s,
            wall_repeat :=
              (wall_repeat wal)
                \<lparr>vec2_u8_x := fread_at (vec2_u8_x (wall_repeat wal)) (off + 22) s,
                 vec2_u8_y := fread_at (vec2_u8_y (wall_repeat wal)) (off + 23) s\<rparr>,
            wall_panning :=
              (wall_panning wal)
                \<lparr>vec2_u8_x := fread_at (vec2_u8_x (wall_panning wal)) (off + 24) s,
                 vec2_u8_y := fread_at (vec2_u8_y (wall_panning wal)) (off + 25) s\<rparr>,
            wall_lotag := fread_at (wall_lotag wal) (off + 26) s,
            wall_hitag := fread_at (wall_hitag wal) (off + 28) s,
            wall_extra := fread_at (wall_extra wal) (off + 30) s\<rparr>
     \<and> fst (sprite_read (spr, drop off s)) =
         spr\<lparr>sprite_position :=
              (sprite_position spr)
                \<lparr>vec3_i32_x := fread_at (vec3_i32_x (sprite_position spr)) off s,
                 vec3_i32_y := fread_at (vec3_i32_y (sprite_position spr)) (off + 4) s,
                 vec3_i32_z := fread_at (vec3_i32_z (sprite_position spr)) (off + 8) s\<rparr>,
            sprite_stat := fread_at (sprite_stat spr) (off + 12) s,
            sprite_pic := fread_at (sprite_pic spr) (off + 14) s,
            sprite_shade := fread_at (sprite_shade spr) (off + 16) s,
            sprite_pal := fread_at (sprite_pal spr) (off + 17) s,
            sprite_clipping_distance := fread_at (sprite_clipping_distance spr) (off + 18) s,
            sprite_filler := fread_at (sprite_filler spr) (off + 19) s,
            sprite_repeat :=
              (sprite_repeat spr)
                \<lparr>vec2_u8_x := fread_at (vec2_u8_x (sprite_repeat spr)) (off + 20) s,
                 vec2_u8_y := fread_at (vec2_u8_y (sprite_repeat spr)) (off + 21) s\<rparr>,
            sprite_offset :=
              (sprite_offset spr)
                \<lparr>vec2_i8_x := fread_at (vec2_i8_x (sprite_offset spr)) (off + 22) s,
                 vec2_i8_y := fread_at (vec2_i8_y (sprite_offset spr)) (off + 23) s\<rparr>,
            sprite_sector := fread_at (sprite_sector spr) (off + 24) s,
            sprite_status := fread_at (sprite_status spr) (off + 26) s,
            sprite_angle := fread_at (sprite_angle spr) (off + 28) s,
            sprite_owner := fread_at (sprite_owner spr) (off + 30) s,
            sprite_vel :=
              (sprite_vel spr)
                \<lparr>vec3_i16_x := fread_at (vec3_i16_x (sprite_vel spr)) (off + 32) s,
                 vec3_i16_y := fread_at (vec3_i16_y (sprite_vel spr)) (off + 34) s,
                 vec3_i16_z := fread_at (vec3_i16_z (sprite_vel spr)) (off + 36) s\<rparr>,
            sprite_lotag := fread_at (sprite_lotag spr) (off + 38) s,
            sprite_hitag := fread_at (sprite_hitag spr) (off + 40) s,
            sprite_extra := fread_at (sprite_extra spr) (off + 42) s\<rparr>
     \<and> le_bytes 1 (fread_at (w8 :: 8 word) off s) =
         take 1 (drop off s) @ drop (length s - off) (le_bytes 1 w8)
     \<and> le_bytes 2 (fread_at (w16 :: 16 word) off s) =
         take 2 (drop off s) @ drop (length s - off) (le_bytes 2 w16)
     \<and> le_bytes 4 (fread_at (w32 :: 32 word) off s) =
         take 4 (drop off s) @ drop (length s - off) (le_bytes 4 w32)
     \<and> (length s \<le> off \<longrightarrow>
          fread_at w8 off s = w8 \<and> fread_at w16 off s = w16 \<and> fread_at w32 off s = w32
          \<and> fst (sector_read (sec, drop off s)) = sec
          \<and> fst (wall_read (wal, drop off s)) = wal
          \<and> fst (sprite_read (spr, drop off s)) = spr)"
proof -
  have opened: "map_read mem fs m path =
     ([], Returns (fst (in_order [map_read_header, map_read_sectors mem, map_read_walls mem,
                                  map_read_sprites mem] (m, file_unread fp))))"
    using assms by (rule map_read_opened)
  then have returns: "\<exists>m'. map_read mem fs m path = ([], Returns m')
           \<and> (sector_memory mem \<noteq> None \<and> wall_memory mem \<noteq> None
                \<and> sprite_memory mem \<noteq> None \<longrightarrow> decoded m')"
    using map_read_arrays_decoded [of mem m "file_unread fp"] by auto
  note closed = map_read_at [where fs = fs and path = path and mem = mem and m = m
      and sj = sj and wj = wj and pj = pj, OF assms]
  note records = sector_read_at [of sec off s, THEN arg_cong, of fst]
    wall_read_at [of wal off s, THEN arg_cong, of fst]
    sprite_read_at [of spr off s, THEN arg_cong, of fst]
  have objects:
    "le_bytes 1 (fread_at w8 off s) = take 1 (drop off s) @ drop (length s - off) (le_bytes 1 w8)"
    "le_bytes 2 (fread_at w16 off s) = take 2 (drop off s) @ drop (length s - off) (le_bytes 2 w16)"
    "le_bytes 4 (fread_at w32 off s) = take 4 (drop off s) @ drop (length s - off) (le_bytes 4 w32)"
    using fread_at_object [of w8 off s] fread_at_object [of w16 off s]
      fread_at_object [of w32 off s]
    by simp_all
  have ends: "length s \<le> off \<longrightarrow>
          fread_at w8 off s = w8 \<and> fread_at w16 off s = w16 \<and> fread_at w32 off s = w32
          \<and> fst (sector_read (sec, drop off s)) = sec
          \<and> fst (wall_read (wal, drop off s)) = wal
          \<and> fst (sprite_read (spr, drop off s)) = spr"
    by (simp add: fread_at_end sector_read_eof wall_read_eof sprite_read_eof)
  show ?thesis
    apply (intro conjI)
    subgoal using returns .
    subgoal using closed by blast
    subgoal using records(1) by simp
    subgoal using records(2) by simp
    subgoal using records(3) by simp
    subgoal using objects(1) .
    subgoal using objects(2) .
    subgoal using objects(3) .
    subgoal using ends .
    done
qed

theorem map_read_does_not_detect_truncation_witness:
  "one_file ''e1l1.map'' truncated_bytes ''e1l1.map'' =
     Some \<lparr>file_unread = truncated_bytes, file_close_ok = True\<rparr>
   \<and> file_close_ok \<lparr>file_unread = truncated_bytes, file_close_ok = True\<rparr>
   \<and> length truncated_bytes \<le> 62
   \<and> (\<exists>m'. map_read junk_memory (one_file ''e1l1.map'' truncated_bytes) zero_map ''e1l1.map'' =
              ([], Returns m')
            \<and> decoded m'
            \<and> sector_count m' = 2
            \<and> the_array (sector m') ! 1 = junk_sector)"
proof -
  let ?fs = "one_file ''e1l1.map'' truncated_bytes"
  let ?fp = "\<lparr>file_unread = truncated_bytes, file_close_ok = True\<rparr>"
  have opened: "?fs ''e1l1.map'' = Some ?fp"
    by (simp add: one_file_def)
  have closes: "file_close_ok ?fp"
    by simp
  have short: "length truncated_bytes \<le> 62"
    by (simp add: truncated_bytes_def)
  have mem: "sector_memory junk_memory = Some (\<lambda>_. junk_sector)
      \<and> wall_memory junk_memory = Some (\<lambda>_. zero_wall)
      \<and> sprite_memory junk_memory = Some (\<lambda>_. zero_sprite)"
    and mem': "sector_memory junk_memory \<noteq> None \<and> wall_memory junk_memory \<noteq> None
      \<and> sprite_memory junk_memory \<noteq> None"
    by (simp_all add: junk_memory_def)
  note inst = map_read_does_not_detect_truncation
      [where fs = ?fs and path = "''e1l1.map''" and mem = junk_memory and m = zero_map
         and sj = "\<lambda>_. junk_sector" and wj = "\<lambda>_. zero_wall" and pj = "\<lambda>_. zero_sprite"
         and sec = junk_sector and off = 62 and s = truncated_bytes,
       OF opened closes]
  from inst [THEN conjunct1] mem' obtain m' where
    m': "map_read junk_memory ?fs zero_map ''e1l1.map'' = ([], Returns m')" and d: "decoded m'"
    by blast
  note closed = inst [THEN conjunct2, THEN conjunct1, rule_format, OF mem]
  note ends = inst [THEN conjunct2, THEN conjunct2, THEN conjunct2, THEN conjunct2,
      THEN conjunct2, THEN conjunct2, THEN conjunct2, THEN conjunct2, rule_format, OF short]
  have ns: "fread_at (sector_count zero_map) 20 truncated_bytes = 2"
    by (simp add: fread_at_def fread_word_full truncated_bytes_def zero_map_def)
  have count: "sector_count m' = 2"
    using closed unfolding m' by (simp add: Let_def ns)
  have "sector m' =
      Some (map (\<lambda>j. fst (sector_read (junk_sector, drop (22 + j * 40) truncated_bytes)))
              [0..<2])"
    using closed unfolding m' by (simp add: Let_def ns)
  then have "the_array (sector m') ! 1 =
      fst (sector_read (junk_sector, drop 62 truncated_bytes))"
    by (simp add: the_array_def)
  with ends have last: "the_array (sector m') ! 1 = junk_sector"
    by simp
  from opened closes short m' d count last show ?thesis by blast
qed

section \<open>Array accesses of the classification\<close>

text \<open>
  C6. On every decoded map, whatever its index fields hold, no array access of
  \<open>is_single_player\<close>, \<open>is_coop\<close> or \<open>is_dukematch\<close> is outside its block
  (\<open>is_vanilla_compatible\<close> reads no array). The index fields play no part: with the
  player's start sector, the wall range of every sector, the three links of every wall
  and the sector and owner of every sprite replaced by any other values, the map is
  still decoded and the four answers are the same.
\<close>

theorem classification_within_bounds:
  assumes "decoded m"
  shows
    "\<not> isl (snd (is_single_player m)) \<and> \<not> isl (is_coop m buffer) \<and> \<not> isl (is_dukematch m buffer)
     \<and> decoded (with_index_fields start p c r l n a b m)
     \<and> snd (is_single_player (with_index_fields start p c r l n a b m)) =
         snd (is_single_player m)
     \<and> is_coop (with_index_fields start p c r l n a b m) buffer = is_coop m buffer
     \<and> is_dukematch (with_index_fields start p c r l n a b m) buffer = is_dukematch m buffer
     \<and> is_vanilla_compatible (with_index_fields start p c r l n a b m) =
         is_vanilla_compatible m"
proof -
  have single: "\<not> isl (snd (is_single_player m))"
    by (simp add: is_single_player_decoded [OF assms] split: option.splits)
  have coop: "\<not> isl (is_coop m buffer)"
    by (simp add: is_coop_decoded [OF assms])
  have dukematch: "\<not> isl (is_dukematch m buffer)"
    by (simp add: is_dukematch_decoded [OF assms])
  from single coop dukematch show ?thesis
    by (simp add: classification_ignores_index_fields [OF assms])
qed

lemma decoded_broken_map: "decoded broken_map"
  by (simp add: broken_map_def decoded_def zero_map_def array_ok_def)

theorem classification_within_bounds_witness:
  "decoded broken_map
   \<and> \<not> isl (snd (is_single_player broken_map))
   \<and> \<not> isl (is_coop broken_map '''')
   \<and> \<not> isl (is_dukematch broken_map '''')"
  using classification_within_bounds [OF decoded_broken_map, of "''''"] decoded_broken_map
  by simp

section \<open>Order of the records\<close>

theorem single_player_answer_depends_on_order:
  "mset (the_array (sprite (map_of_sprites [nuke_button 32767 0, nuke_button 65535 0]))) =
     mset (the_array (sprite (map_of_sprites [nuke_button 65535 0, nuke_button 32767 0])))
   \<and> snd (is_single_player (map_of_sprites [nuke_button 32767 0, nuke_button 65535 0])) =
       Inr yes_unknown
   \<and> snd (is_single_player (map_of_sprites [nuke_button 65535 0, nuke_button 32767 0])) =
       Inr yes_nuke_button
   \<and> yes_unknown \<noteq> yes_nuke_button"
proof -
  let ?a = "map_of_sprites [nuke_button 32767 0, nuke_button 65535 0]"
  let ?b = "map_of_sprites [nuke_button 65535 0, nuke_button 32767 0]"
  have a: "decoded ?a" and b: "decoded ?b"
    by (rule decoded_map_of_sprites, simp)+
  have "mset (the_array (sprite ?a)) = mset (the_array (sprite ?b))"
    by (simp add: map_of_sprites_def the_array_def)
  moreover have "snd (is_single_player ?a) = Inr yes_unknown"
    unfolding single_player_result [OF a]
    by (simp add: map_of_sprites_def the_array_def single_player_check_def nuke_button_def
          zero_sprite_def sprite_lotag_value_def)
  moreover have "snd (is_single_player ?b) = Inr yes_nuke_button"
    unfolding single_player_result [OF b]
    by (simp add: map_of_sprites_def the_array_def single_player_check_def nuke_button_def
          zero_sprite_def sprite_lotag_value_def)
  moreover have "yes_unknown \<noteq> yes_nuke_button"
    using single_player_texts_distinct by simp
  ultimately show ?thesis by simp
qed

lemma array_ok_size:
  "array_ok p (unat (n :: 16 word)) \<Longrightarrow> array_ok q (unat (n' :: 16 word)) \<Longrightarrow>
   mset (the_array q) = mset (the_array p) \<Longrightarrow> n' = n"
proof -
  assume p: "array_ok p (unat n)" and q: "array_ok q (unat n')"
    and eq: "mset (the_array q) = mset (the_array p)"
  have "length (the_array q) = length (the_array p)"
    using eq by (rule mset_eq_length)
  then have "unat n' = unat n"
    using array_ok_length [OF p] array_ok_length [OF q] by simp
  then show "n' = n" by (simp add: word_unat_eq_iff)
qed

lemma filter_length_mset:
  "mset ys = mset xs \<Longrightarrow> length (filter P ys) = length (filter P xs)"
proof -
  assume "mset ys = mset xs"
  then have "mset (filter P ys) = mset (filter P xs)" by simp
  then show ?thesis by (rule mset_eq_length)
qed

text \<open>
  C7, as the program has it. Each of the four answers is a function of the decoded arrays
  and of nothing else in the map. The answers of \<open>is_coop\<close>,
  \<open>is_dukematch\<close> and \<open>is_vanilla_compatible\<close> are the same for
  two decoded maps whose sector, wall and sprite arrays hold the same records in any
  order, and so is whether \<open>is_single_player\<close> answers "No". Which of its four
  other texts \<open>is_single_player\<close> answers is that of the first matching
  sprite, so it follows the order of the sprites.
\<close>

theorem classification_order:
  assumes "decoded m" and "decoded m'"
    and "mset (the_array (sector m')) = mset (the_array (sector m))"
    and "mset (the_array (wall m')) = mset (the_array (wall m))"
    and "mset (the_array (sprite m')) = mset (the_array (sprite m))"
  shows
    "is_coop m' buffer = is_coop m buffer
     \<and> is_dukematch m' buffer = is_dukematch m buffer
     \<and> is_vanilla_compatible m' = is_vanilla_compatible m
     \<and> (snd (is_single_player m') = Inr ''No'') = (snd (is_single_player m) = Inr ''No'')
     \<and> snd (is_single_player m) =
         Inr (case find (\<lambda>s. single_player_check s \<noteq> None) (the_array (sprite m)) of
                None \<Rightarrow> ''No''
              | Some s \<Rightarrow>
                  if sprite_lotag_value s = 32767 then yes_unknown
                  else if sprite_lotag_value s = 65534 then yes_fry
                  else if sprite_lotag_value s = 65535 then yes_nuke_button
                  else yes_secret_exit)"
proof -
  have ok: "array_ok (sector m) (unat (sector_count m))" "array_ok (wall m) (unat (wall_count m))"
    "array_ok (sprite m) (unat (sprite_count m))"
    using assms(1) by (simp_all add: decoded_def)
  have ok': "array_ok (sector m') (unat (sector_count m'))"
    "array_ok (wall m') (unat (wall_count m'))" "array_ok (sprite m') (unat (sprite_count m'))"
    using assms(2) by (simp_all add: decoded_def)
  have counts: "sector_count m' = sector_count m" "wall_count m' = wall_count m"
    "sprite_count m' = sprite_count m"
    using array_ok_size [OF ok(1) ok'(1) assms(3)] array_ok_size [OF ok(2) ok'(2) assms(4)]
      array_ok_size [OF ok(3) ok'(3) assms(5)]
    by simp_all
  have co: "is_coop m' buffer = is_coop m buffer"
    unfolding is_coop_decoded [OF assms(1)] is_coop_decoded [OF assms(2)]
      filter_length_mset [OF assms(5)] ..
  have du: "is_dukematch m' buffer = is_dukematch m buffer"
    unfolding is_dukematch_decoded [OF assms(1)] is_dukematch_decoded [OF assms(2)]
      filter_length_mset [OF assms(5)] ..
  have va: "is_vanilla_compatible m' = is_vanilla_compatible m"
    by (simp add: is_vanilla_compatible_def counts)
  have "set (the_array (sprite m')) = set (the_array (sprite m))"
    using assms(5) by (rule mset_eq_setD)
  then have no: "(snd (is_single_player m') = Inr ''No'') = (snd (is_single_player m) = Inr ''No'')"
    unfolding single_player_No [OF assms(1)] single_player_No [OF assms(2)] by simp
  from co du va no single_player_result [OF assms(1)] show ?thesis by blast
qed

theorem classification_order_witness:
  "decoded (map_of_sprites [player_start 1, nuke_button 65535 0, player_start 0])
   \<and> decoded (map_of_sprites [player_start 0, player_start 1, nuke_button 65535 0])
   \<and> is_coop (map_of_sprites [player_start 0, player_start 1, nuke_button 65535 0]) [] =
       is_coop (map_of_sprites [player_start 1, nuke_button 65535 0, player_start 0]) []
   \<and> is_dukematch (map_of_sprites [player_start 0, player_start 1, nuke_button 65535 0]) [] =
       is_dukematch (map_of_sprites [player_start 1, nuke_button 65535 0, player_start 0]) []
   \<and> snd (is_single_player (map_of_sprites [player_start 1, nuke_button 65535 0, player_start 0])) =
       Inr yes_nuke_button"
proof -
  let ?m = "map_of_sprites [player_start 1, nuke_button 65535 0, player_start 0]"
  let ?m' = "map_of_sprites [player_start 0, player_start 1, nuke_button 65535 0]"
  have d: "decoded ?m" and d': "decoded ?m'"
    by (rule decoded_map_of_sprites, simp)+
  have secs: "mset (the_array (sector ?m')) = mset (the_array (sector ?m))"
    and walls: "mset (the_array (wall ?m')) = mset (the_array (wall ?m))"
    and sps: "mset (the_array (sprite ?m')) = mset (the_array (sprite ?m))"
    by (simp_all add: map_of_sprites_def zero_map_def the_array_def)
  have "snd (is_single_player ?m) = Inr yes_nuke_button"
    using classification_order [OF d d' secs walls sps, of "[]"]
    by (simp add: map_of_sprites_def the_array_def single_player_check_def nuke_button_def
          player_start_def zero_sprite_def sprite_lotag_value_def)
  with classification_order [OF d d' secs walls sps, of "[]"] d d' show ?thesis by simp
qed

section \<open>Several files in one invocation\<close>

lemma empty_file_report:
  "main_file junk_memory (one_file ''empty.map'' []) ''empty.map'' =
     ([Stdout_filename ''empty.map'', Stdout_version 0, Stdout_single_player ''No'',
       Stdout_cooperative ''No'', Stdout_dukematch ''No'', Stdout_atomic, Stdout_new_art,
       Stdout_vanilla ''Yes'' 0 0 0],
      Returns ())"
proof -
  let ?m = "zero_map\<lparr>sector := Some [], wall := Some [], sprite := Some []\<rparr>"
  have "in_order [map_read_header, map_read_sectors junk_memory, map_read_walls junk_memory,
                  map_read_sprites junk_memory] (zero_map, []) = (?m, [])"
    by (simp add: in_order_Cons in_order_Nil map_read_header_def map_read_sectors_def
          map_read_walls_def map_read_sprites_def fread_field_eof malloc_def junk_memory_def
          read_records_eof sector_read_eof wall_read_eof sprite_read_eof zero_map_def)
  then have read: "map_read junk_memory (one_file ''empty.map'' []) zero_map ''empty.map'' =
      ([], Returns ?m)"
    by (simp add: map_read_def safe_fopen_def safe_fclose_def and_then_def one_file_def)
  have d: "decoded ?m"
    by (simp add: decoded_def array_ok_def zero_map_def)
  have single: "is_single_player ?m = ([], Inr ''No'')"
    by (simp add: is_single_player_decoded [OF d] the_array_def first_message_Nil)
  have coop: "is_coop ?m [] = Inr (''No'', [])"
    by (simp add: is_coop_decoded [OF d] the_array_def)
  have dukematch: "is_dukematch ?m [] = Inr (''No'', [])"
    by (simp add: is_dukematch_decoded [OF d] the_array_def)
  have fields: "sint (version zero_map) = 0" "uint (sector_count zero_map) = 0"
    "uint (wall_count zero_map) = 0" "uint (sprite_count zero_map) = 0"
    "is_vanilla_compatible ?m = ''Yes''"
    by (simp_all add: is_vanilla_compatible_def zero_map_def)
  have "map_print ?m ''empty.map'' =
     ([Stdout_filename ''empty.map'', Stdout_version 0, Stdout_single_player ''No'',
       Stdout_cooperative ''No'', Stdout_dukematch ''No'', Stdout_atomic, Stdout_new_art,
       Stdout_vanilla ''Yes'' 0 0 0],
      Returns ())"
    by (simp add: map_print_def and_then_def of_fault_def single coop dukematch fields)
  with read show ?thesis
    by (simp add: main_file_def and_then_def)
qed

theorem unopenable_path_ends_the_batch:
  "main (\<lambda>_. junk_memory) (one_file ''empty.map'' [])
     [''mapinfo'', ''missing.map'', ''empty.map''] =
   ([Stderr_perror ''fopen''], Exits 3)"
proof -
  have "main_files (\<lambda>_. junk_memory) (one_file ''empty.map'' [])
          [''mapinfo'', ''missing.map'', ''empty.map''] 1 =
        ([Stderr_perror ''fopen''], Exits error_fopen)"
    by (rule main_files_stop) (simp_all add: one_file_def)
  then show ?thesis
    by (simp add: main_def error_fopen_def)
qed

text \<open>
  C8, as the program has it. The files of one invocation are processed in the order of the
  arguments. A file that opens is reported and the loop goes on to the next one, whatever
  bytes the file holds (its stream is closed without error, and its three allocations
  succeed). The first path that cannot be opened ends the whole process:
  \<open>safe_fopen\<close> writes the error and exits with status 3, after the reports of
  the files before it, and no file after it is processed. When every path opens,
  \<open>main\<close> returns \<open>EXIT_SUCCESS\<close> after the reports of all files.
\<close>

theorem batch_stops_at_unopenable_path:
  assumes "2 \<le> length argv" and "1 \<le> k" and "k \<le> length argv"
    and "\<forall>j. 1 \<le> j \<and> j < k \<longrightarrow>
           (\<exists>fp. fs (argv ! j) = Some fp \<and> file_close_ok fp)
           \<and> sector_memory (mem j) \<noteq> None \<and> wall_memory (mem j) \<noteq> None
           \<and> sprite_memory (mem j) \<noteq> None"
    and "k < length argv \<longrightarrow> fs (argv ! k) = None"
  shows
    "main mem fs argv =
       (concat (map (\<lambda>j. fst (main_file (mem j) fs (argv ! j))) [1..<k])
          @ (if k < length argv then [Stderr_perror ''fopen''] else []),
        if k < length argv then Exits error_fopen else Returns EXIT_SUCCESS)
     \<and> (\<forall>j. 1 \<le> j \<and> j < k \<longrightarrow> snd (main_file (mem j) fs (argv ! j)) = Returns ())"
proof -
  have good: "\<forall>j. 1 \<le> j \<and> j < k \<longrightarrow> snd (main_file (mem j) fs (argv ! j)) = Returns ()"
  proof (intro allI impI)
    fix j assume j: "1 \<le> j \<and> j < k"
    with assms(4) obtain fp where "fs (argv ! j) = Some fp" and "file_close_ok fp"
      and "sector_memory (mem j) \<noteq> None" and "wall_memory (mem j) \<noteq> None"
      and "sprite_memory (mem j) \<noteq> None"
      by blast
    then show "snd (main_file (mem j) fs (argv ! j)) = Returns ()"
      by (rule main_file_opened)
  qed
  have upto: "main_files mem fs argv 1 =
     (concat (map (\<lambda>j. fst (main_file (mem j) fs (argv ! j))) [1..<k])
        @ fst (main_files mem fs argv k),
      snd (main_files mem fs argv k))"
    using assms(2,3) good by (rule main_files_upto)
  have last: "main_files mem fs argv k =
     (if k < length argv then [Stderr_perror ''fopen''] else [],
      if k < length argv then Exits error_fopen else Returns EXIT_SUCCESS)"
  proof (cases "k < length argv")
    case True
    with assms(5) have "fs (argv ! k) = None" by simp
    with True show ?thesis by (simp add: main_files_stop)
  next
    case False
    then show ?thesis by (simp add: main_files_end)
  qed
  have "main mem fs argv = main_files mem fs argv 1"
    using assms(1) by (simp add: main_def)
  with upto last good show ?thesis by simp
qed

theorem batch_stops_at_unopenable_path_witness:
  "(2::nat) \<le> length [''mapinfo'', ''empty.map'', ''missing.map'', ''empty.map'']
   \<and> one_file ''empty.map'' [] ''empty.map'' = Some \<lparr>file_unread = [], file_close_ok = True\<rparr>
   \<and> one_file ''empty.map'' [] ''missing.map'' = None
   \<and> main (\<lambda>_. junk_memory) (one_file ''empty.map'' [])
        [''mapinfo'', ''empty.map'', ''missing.map'', ''empty.map''] =
       ([Stdout_filename ''empty.map'', Stdout_version 0, Stdout_single_player ''No'',
         Stdout_cooperative ''No'', Stdout_dukematch ''No'', Stdout_atomic, Stdout_new_art,
         Stdout_vanilla ''Yes'' 0 0 0, Stderr_perror ''fopen''],
        Exits 3)"
proof -
  let ?argv = "[''mapinfo'', ''empty.map'', ''missing.map'', ''empty.map'']"
  let ?fs = "one_file ''empty.map'' []"
  have len: "(2::nat) \<le> length ?argv" and k1: "(1::nat) \<le> 2" and k2: "2 \<le> length ?argv"
    by simp_all
  have opened: "?fs ''empty.map'' = Some \<lparr>file_unread = [], file_close_ok = True\<rparr>"
    and missing: "?fs ''missing.map'' = None"
    by (simp_all add: one_file_def)
  have before: "\<forall>j. 1 \<le> j \<and> j < 2 \<longrightarrow>
           (\<exists>fp. ?fs (?argv ! j) = Some fp \<and> file_close_ok fp)
           \<and> sector_memory junk_memory \<noteq> None \<and> wall_memory junk_memory \<noteq> None
           \<and> sprite_memory junk_memory \<noteq> None"
  proof (intro allI impI)
    fix j :: nat assume "1 \<le> j \<and> j < 2"
    then have "j = 1" by simp
    then show "(\<exists>fp. ?fs (?argv ! j) = Some fp \<and> file_close_ok fp)
           \<and> sector_memory junk_memory \<noteq> None \<and> wall_memory junk_memory \<noteq> None
           \<and> sprite_memory junk_memory \<noteq> None"
      by (simp add: opened junk_memory_def)
  qed
  have at: "2 < length ?argv \<longrightarrow> ?fs (?argv ! 2) = None"
    by (simp add: missing)
  have "main (\<lambda>_. junk_memory) ?fs ?argv =
       ([Stdout_filename ''empty.map'', Stdout_version 0, Stdout_single_player ''No'',
         Stdout_cooperative ''No'', Stdout_dukematch ''No'', Stdout_atomic, Stdout_new_art,
         Stdout_vanilla ''Yes'' 0 0 0, Stderr_perror ''fopen''],
        Exits 3)"
    using batch_stops_at_unopenable_path
      [where mem = "\<lambda>_. junk_memory" and fs = ?fs and argv = ?argv and k = 2,
       OF len k1 k2 before at]
    by (simp add: upt_rec empty_file_report error_fopen_def)
  with len opened missing show ?thesis by simp
qed

section \<open>Signedness of the sprite tags\<close>

lemma sint16_eq_uint: "(sint (w :: 16 word) = uint w) = (uint w \<le> 32767)"
proof -
  have "(signed_take_bit 15 (uint w) = uint w) = (- (2 ^ 15) \<le> uint w \<and> uint w < 2 ^ 15)"
    by (rule signed_take_bit_int_eq_self_iff)
  moreover have "0 \<le> uint w" by simp
  moreover have "sint w = signed_take_bit 15 (uint w)" by (simp add: sint_uint)
  ultimately show ?thesis by auto
qed

lemma sint16_range: "- 32768 \<le> sint (w :: 16 word) \<and> sint w \<le> 32767"
  using sint_ge [of w] sint_lt [of w] by simp

lemma uint16_range: "0 \<le> uint (w :: 16 word) \<and> uint w \<le> 65535"
  using uint_lt2p [of w] by simp

theorem sprite_tag_variants_disagree:
  "sprite_lotag_value (fst (sprite_read (zero_sprite, nuke_bytes))) = 65535
   \<and> summary_sprite_lotag_value (fst (sprite_read (zero_sprite, nuke_bytes))) = - 1
   \<and> sprite_hitag_value (fst (sprite_read (zero_sprite, nuke_bytes))) = 65535
   \<and> summary_sprite_hitag_value (fst (sprite_read (zero_sprite, nuke_bytes))) = - 1"
  by (simp add: sprite_read_def in_order_Cons in_order_Nil fread_field_bytes fread_word_full
        nuke_bytes_def zero_sprite_def sprite_lotag_value_def
        summary_sprite_lotag_value_def sprite_hitag_value_def summary_sprite_hitag_value_def)

text \<open>
  C9, as the program has it. In the file with the classification functions the lotag and
  hitag of a sprite are unsigned 16-bit values, between 0 and 65535, and 65535 is what the
  bytes FF FF decode to; the extra is a signed 16-bit value in both files. In the file
  with the summary line the lotag and hitag are signed 16-bit values, between -32768 and
  32767, so they are never 65535. The two files give a tag the same value exactly when it
  is at most 32767.
\<close>

theorem sprite_tag_signedness:
  "0 \<le> sprite_lotag_value s \<and> sprite_lotag_value s \<le> 65535
   \<and> 0 \<le> sprite_hitag_value s \<and> sprite_hitag_value s \<le> 65535
   \<and> sprite_lotag_value (fst (sprite_read (s, nuke_bytes))) = 65535
   \<and> sprite_hitag_value (fst (sprite_read (s, nuke_bytes))) = 65535
   \<and> - 32768 \<le> sprite_extra_value s \<and> sprite_extra_value s \<le> 32767
   \<and> sprite_extra_value (fst (sprite_read (s, nuke_bytes))) = - 1
   \<and> summary_sprite_extra_value s = sprite_extra_value s
   \<and> - 32768 \<le> summary_sprite_lotag_value s \<and> summary_sprite_lotag_value s \<le> 32767
   \<and> - 32768 \<le> summary_sprite_hitag_value s \<and> summary_sprite_hitag_value s \<le> 32767
   \<and> (summary_sprite_lotag_value s = sprite_lotag_value s) = (sprite_lotag_value s \<le> 32767)
   \<and> (summary_sprite_hitag_value s = sprite_hitag_value s) = (sprite_hitag_value s \<le> 32767)"
proof -
  have decoded_tags:
    "sprite_lotag_value (fst (sprite_read (s, nuke_bytes))) = 65535"
    "sprite_hitag_value (fst (sprite_read (s, nuke_bytes))) = 65535"
    "sprite_extra_value (fst (sprite_read (s, nuke_bytes))) = - 1"
    by (simp_all add: sprite_read_def in_order_Cons in_order_Nil fread_field_bytes
          fread_word_full nuke_bytes_def sprite_lotag_value_def
          sprite_hitag_value_def sprite_extra_value_def)
  show ?thesis
    unfolding decoded_tags
    using uint16_range [of "sprite_lotag s"] uint16_range [of "sprite_hitag s"]
      sint16_range [of "sprite_extra s"] sint16_range [of "sprite_lotag s"]
      sint16_range [of "sprite_hitag s"]
      sint16_eq_uint [of "sprite_lotag s"] sint16_eq_uint [of "sprite_hitag s"]
    by (simp add: sprite_lotag_value_def sprite_hitag_value_def sprite_extra_value_def
          summary_sprite_lotag_value_def summary_sprite_hitag_value_def
          summary_sprite_extra_value_def)
qed

section \<open>Order of the tests on one sprite\<close>

text \<open>
  C10. On a decoded map, let sprite \<open>i\<close> have picture 142 and a lotag of 32767, 65534
  or 65535, and let no sprite before it have picture 142 together with one of these
  lotags or with palette 14. Then \<open>is_single_player\<close> answers with the text of that
  lotag, whatever the palette of sprite \<open>i\<close> is, 14 included, and never with the text of
  the secret exit.
\<close>

theorem lotag_tests_before_palette:
  assumes "decoded m"
    and "i < length (the_array (sprite m))"
    and "\<forall>j<i. \<not> (sint (sprite_pic (the_array (sprite m) ! j)) = 142
                   \<and> (sprite_lotag_value (the_array (sprite m) ! j) \<in> {32767, 65534, 65535}
                       \<or> uint (sprite_pal (the_array (sprite m) ! j)) = 14))"
    and "sint (sprite_pic (the_array (sprite m) ! i)) = 142"
    and "sprite_lotag_value (the_array (sprite m) ! i) \<in> {32767, 65534, 65535}"
  shows
    "snd (is_single_player m) =
       Inr (if sprite_lotag_value (the_array (sprite m) ! i) = 32767 then yes_unknown
            else if sprite_lotag_value (the_array (sprite m) ! i) = 65534 then yes_fry
            else yes_nuke_button)
     \<and> snd (is_single_player m) \<noteq> Inr yes_secret_exit"
proof -
  let ?s = "the_array (sprite m) ! i"
  have "single_player_check ?s \<noteq> None"
    using assms(4,5) single_player_check_Some [of ?s] by blast
  moreover have "\<forall>j<i. \<not> single_player_check (the_array (sprite m) ! j) \<noteq> None"
    using assms(3) unfolding single_player_check_Some by blast
  ultimately have "find (\<lambda>s. single_player_check s \<noteq> None) (the_array (sprite m)) = Some ?s"
    using assms(2) unfolding find_Some_iff by blast
  then have result: "snd (is_single_player m) =
       Inr (if sprite_lotag_value ?s = 32767 then yes_unknown
            else if sprite_lotag_value ?s = 65534 then yes_fry
            else yes_nuke_button)"
    using single_player_result [OF assms(1)] assms(5) by auto
  moreover have "yes_unknown \<noteq> yes_secret_exit" "yes_fry \<noteq> yes_secret_exit"
    "yes_nuke_button \<noteq> yes_secret_exit"
    using single_player_texts_distinct by auto
  ultimately show ?thesis by simp
qed

theorem lotag_tests_before_palette_witness:
  "decoded (map_of_sprites [nuke_button 5 0, nuke_button 65534 14])
   \<and> snd (is_single_player (map_of_sprites [nuke_button 5 0, nuke_button 65534 14])) = Inr yes_fry"
proof -
  let ?m = "map_of_sprites [nuke_button 5 0, nuke_button 65534 14]"
  have d: "decoded ?m" by (rule decoded_map_of_sprites) simp
  have sps: "the_array (sprite ?m) = [nuke_button 5 0, nuke_button 65534 14]"
    by (simp add: map_of_sprites_def the_array_def)
  have "snd (is_single_player ?m) = Inr yes_fry"
    using lotag_tests_before_palette [OF d, of 1]
    unfolding sps
    by (simp add: nuke_button_def zero_sprite_def sprite_lotag_value_def less_Suc_eq)
  with d show ?thesis by simp
qed

end
